theory Spec2Isabelle
  imports Complex_Main
begin

section \<open>JavaScript values, number rendering and JSON text\<close>

text \<open>
  The services keep their collections in a key-value store and pass plain JavaScript
  objects around. Payloads typed \<open>any\<close> in the source are modelled by a small JSON value
  type; numbers are restricted to integers (timestamps are milliseconds since the epoch).
\<close>

datatype json =
    JUndefined
  | JNull
  | JBool bool
  | JNum int
  | JStr string
  | JArr "json list"
  | JObj "(string \<times> json) list"

text \<open>JavaScript truthiness, as used by \<open>!x\<close> and \<open>x || y\<close>.\<close>

fun truthy :: "json \<Rightarrow> bool" where
  "truthy JUndefined = False"
| "truthy JNull = False"
| "truthy (JBool b) = b"
| "truthy (JNum n) = (n \<noteq> 0)"
| "truthy (JStr s) = (s \<noteq> [])"
| "truthy (JArr xs) = True"
| "truthy (JObj kvs) = True"

definition digitChar :: "nat \<Rightarrow> char" where
  "digitChar n = ''0123456789abcdef'' ! n"

fun showNat :: "nat \<Rightarrow> string" where
  "showNat n =
     (if n < 10 then [digitChar n]
      else showNat (n div 10) @ [digitChar (n mod 10)])"

definition showInt :: "int \<Rightarrow> string" where
  "showInt i = (if i < 0 then CHR ''-'' # showNat (nat (- i)) else showNat (nat i))"

text \<open>String escaping of \<open>JSON.stringify\<close>: quote, backslash and the control characters.\<close>

definition escapeChar :: "char \<Rightarrow> string" where
  "escapeChar c =
     (if c = CHR 0x22 then [CHR 0x5C, CHR 0x22]
      else if c = CHR 0x5C then [CHR 0x5C, CHR 0x5C]
      else if c = CHR 0x08 then [CHR 0x5C, CHR ''b'']
      else if c = CHR 0x0C then [CHR 0x5C, CHR ''f'']
      else if c = CHR 0x0A then [CHR 0x5C, CHR ''n'']
      else if c = CHR 0x0D then [CHR 0x5C, CHR ''r'']
      else if c = CHR 0x09 then [CHR 0x5C, CHR ''t'']
      else if of_char c < (32::nat) then
        [CHR 0x5C, CHR ''u'', CHR ''0'', CHR ''0'',
         digitChar (of_char c div 16), digitChar (of_char c mod 16)]
      else [c])"

definition quoteJSON :: "string \<Rightarrow> string" where
  "quoteJSON s = CHR 0x22 # concat (map escapeChar s) @ [CHR 0x22]"

fun joinWith :: "string \<Rightarrow> string list \<Rightarrow> string" where
  "joinWith sep [] = []"
| "joinWith sep [x] = x"
| "joinWith sep (x # y # rest) = x @ sep @ joinWith sep (y # rest)"

text \<open>
  \<open>JSON.stringify\<close>: an \<open>undefined\<close> member of an object is left out, an \<open>undefined\<close>
  element of an array is written \<open>null\<close>; at top level the template literal that embeds
  the result renders \<open>undefined\<close>.
\<close>

fun stringify :: "json \<Rightarrow> string"
  and stringifyElems :: "json list \<Rightarrow> string list"
  and stringifyMembers :: "(string \<times> json) list \<Rightarrow> string list" where
  "stringify JUndefined = ''undefined''"
| "stringify JNull = ''null''"
| "stringify (JBool b) = (if b then ''true'' else ''false'')"
| "stringify (JNum n) = showInt n"
| "stringify (JStr s) = quoteJSON s"
| "stringify (JArr xs) = ''['' @ joinWith '','' (stringifyElems xs) @ '']''"
| "stringify (JObj kvs) = ''{'' @ joinWith '','' (stringifyMembers kvs) @ ''}''"
| "stringifyElems [] = []"
| "stringifyElems (x # xs) =
     (if x = JUndefined then ''null'' else stringify x) # stringifyElems xs"
| "stringifyMembers [] = []"
| "stringifyMembers ((k, v) # kvs) =
     (if v = JUndefined then stringifyMembers kvs
      else (quoteJSON k @ '':'' @ stringify v) # stringifyMembers kvs)"

text \<open>
  The external collaborators: the digest of \<open>CryptoService.generateHash\<close>, and the two
  renderings of a \<open>Date\<close> (\<open>toString\<close> inside a template literal, \<open>toISOString\<close> inside
  \<open>JSON.stringify\<close>). They are parameters of every definition that uses them.
\<close>

record env =
  generateHash :: "string \<Rightarrow> string"
  dateToString :: "int \<Rightarrow> string"
  dateToISO :: "int \<Rightarrow> string"


section \<open>Transaction pool (TransactionManager)\<close>

datatype status = Pending | Confirmed | Failed

fun statusText :: "status \<Rightarrow> string" where
  "statusText Pending = ''pending''"
| "statusText Confirmed = ''confirmed''"
| "statusText Failed = ''failed''"

text \<open>
  \<open>BlockchainTransaction\<close>. The type tag stays a string because \<open>validateTransaction\<close>
  checks it at run time; \<open>to\<close>, \<open>gasUsed\<close> and \<open>blockIndex\<close> may be \<open>undefined\<close>.
\<close>

record Transaction =
  tx_id :: string
  tx_type :: string
  tx_from :: string
  tx_to :: "string option"
  tx_data :: json
  tx_timestamp :: int
  tx_signature :: string
  tx_status :: status
  tx_gasLimit :: int
  tx_gasUsed :: "int option"
  tx_blockIndex :: "int option"

datatype error =
    ValidationFailed string
  | PoolFull
  | TypeError
  | InvalidBlockIndex
  | InvalidPreviousHash
  | InvalidBlockHash
  | InvalidMerkleRoot

datatype validation = Valid | Invalid string

definition MAX_POOL_SIZE :: nat where
  "MAX_POOL_SIZE = 1000"

definition validTypes :: "string list" where
  "validTypes = [''vote'', ''election_create'', ''election_update'', ''voter_register'',
                 ''smart_contract'']"

definition validateTransaction :: "Transaction \<Rightarrow> validation" where
  "validateTransaction tx =
     (if tx_id tx = [] \<or> tx_signature tx = [] then Invalid ''Missing transaction ID or signature''
      else if tx_from tx = [] then Invalid ''Missing sender address''
      else if \<not> truthy (tx_data tx) then Invalid ''Missing transaction data''
      else if tx_type tx \<notin> set validTypes then Invalid ''Invalid transaction type''
      else Valid)"

definition optStr :: "string option \<Rightarrow> json" where
  "optStr s = (case s of None \<Rightarrow> JUndefined | Some t \<Rightarrow> JStr t)"

definition optNum :: "int option \<Rightarrow> json" where
  "optNum n = (case n of None \<Rightarrow> JUndefined | Some i \<Rightarrow> JNum i)"

definition signTransaction :: "env \<Rightarrow> Transaction \<Rightarrow> string" where
  "signTransaction e tx =
     generateHash e (stringify (JObj
       [(''id'', JStr (tx_id tx)),
        (''type'', JStr (tx_type tx)),
        (''from'', JStr (tx_from tx)),
        (''to'', optStr (tx_to tx)),
        (''data'', tx_data tx),
        (''timestamp'', JStr (dateToISO e (tx_timestamp tx)))]))"

definition verifyTransactionSignature :: "env \<Rightarrow> Transaction \<Rightarrow> bool" where
  "verifyTransactionSignature e tx = (tx_signature tx = signTransaction e tx)"

definition calculateGasLimit :: "string \<Rightarrow> int" where
  "calculateGasLimit t =
     (if t = ''vote'' then 100
      else if t = ''election_create'' then 500
      else if t = ''election_update'' then 300
      else if t = ''voter_register'' then 200
      else if t = ''smart_contract'' then 1000
      else 100)"

text \<open>\<open>createTransaction\<close>; the fresh identifier and the clock are inputs.\<close>

definition createTransaction ::
    "env \<Rightarrow> string \<Rightarrow> int \<Rightarrow> string \<Rightarrow> string \<Rightarrow> json \<Rightarrow> string option \<Rightarrow> Transaction" where
  "createTransaction e uuid now t sender d recipient =
     (let transaction = \<lparr> tx_id = uuid, tx_type = t, tx_from = sender, tx_to = recipient,
                           tx_data = d, tx_timestamp = now, tx_signature = [],
                           tx_status = Pending, tx_gasLimit = calculateGasLimit t,
                           tx_gasUsed = Some 0, tx_blockIndex = None \<rparr>
      in transaction\<lparr> tx_signature := signTransaction e transaction \<rparr>)"

definition submitTransaction :: "Transaction \<Rightarrow> Transaction list \<Rightarrow> error + Transaction list" where
  "submitTransaction transaction pool =
     (case validateTransaction transaction of
        Invalid reason \<Rightarrow> Inl (ValidationFailed reason)
      | Valid \<Rightarrow>
          if length pool \<ge> MAX_POOL_SIZE then Inl PoolFull
          else Inr (pool @ [transaction]))"

text \<open>
  \<open>pool.find(p)\<close> followed by assignments to the object found: the first element that
  satisfies \<open>p\<close> is changed in place, the list is untouched when there is none.
\<close>

fun mutateFirst :: "('a \<Rightarrow> bool) \<Rightarrow> ('a \<Rightarrow> 'a) \<Rightarrow> 'a list \<Rightarrow> 'a list" where
  "mutateFirst p f [] = []"
| "mutateFirst p f (x # xs) = (if p x then f x # xs else x # mutateFirst p f xs)"

definition markTransactionConfirmed ::
    "string \<Rightarrow> int \<Rightarrow> int \<Rightarrow> Transaction list \<Rightarrow> Transaction list" where
  "markTransactionConfirmed transactionId blockIndex gasUsed pool =
     mutateFirst (\<lambda>tx. tx_id tx = transactionId)
       (\<lambda>tx. tx\<lparr> tx_status := Confirmed, tx_blockIndex := Some blockIndex,
                   tx_gasUsed := Some gasUsed \<rparr>) pool"

definition markTransactionFailed :: "string \<Rightarrow> Transaction list \<Rightarrow> Transaction list" where
  "markTransactionFailed transactionId pool =
     mutateFirst (\<lambda>tx. tx_id tx = transactionId) (\<lambda>tx. tx\<lparr> tx_status := Failed \<rparr>) pool"

definition removePendingTransaction :: "string \<Rightarrow> Transaction list \<Rightarrow> Transaction list" where
  "removePendingTransaction transactionId pool = filter (\<lambda>tx. tx_id tx \<noteq> transactionId) pool"

text \<open>\<open>clearConfirmedTransactions\<close> returns the number removed and the new pool.\<close>

definition clearConfirmedTransactions ::
    "int \<Rightarrow> int option \<Rightarrow> Transaction list \<Rightarrow> nat \<times> Transaction list" where
  "clearConfirmedTransactions now olderThan pool =
     (let cutoffTime = (case olderThan of Some t \<Rightarrow> t | None \<Rightarrow> now - 24 * 60 * 60 * 1000);
          filteredPool = filter (\<lambda>tx. tx_status tx \<noteq> Confirmed \<or> tx_timestamp tx > cutoffTime) pool
      in (length pool - length filteredPool, filteredPool))"

text \<open>
  \<open>getTransactionStats\<close>: one pass over the pool accumulating the per-type counts, the gas
  total and the number of entries that contributed to it.
\<close>

record TransactionStats =
  totalTransactions :: nat
  pendingTransactions :: nat
  confirmedTransactions :: nat
  failedTransactions :: nat
  transactionsByType :: "string \<Rightarrow> nat option"
  averageGasUsed :: real

definition gasTruthy :: "int option \<Rightarrow> bool" where
  "gasTruthy g = (case g of None \<Rightarrow> False | Some n \<Rightarrow> n \<noteq> 0)"

definition gasOrZero :: "int option \<Rightarrow> int" where
  "gasOrZero g = (case g of None \<Rightarrow> 0 | Some n \<Rightarrow> n)"

definition statsStep ::
    "Transaction \<Rightarrow> (string \<Rightarrow> nat option) \<times> int \<times> nat \<Rightarrow> (string \<Rightarrow> nat option) \<times> int \<times> nat" where
  "statsStep tx acc =
     (case acc of (byType, totalGasUsed, confirmedCount) \<Rightarrow>
        let byType' = byType(tx_type tx \<mapsto> (case byType (tx_type tx) of None \<Rightarrow> 0 | Some c \<Rightarrow> c) + 1)
        in if tx_status tx = Confirmed \<and> gasTruthy (tx_gasUsed tx)
           then (byType', totalGasUsed + gasOrZero (tx_gasUsed tx), confirmedCount + 1)
           else (byType', totalGasUsed, confirmedCount))"

definition getTransactionStats :: "Transaction list \<Rightarrow> TransactionStats" where
  "getTransactionStats pool =
     (case fold statsStep pool (Map.empty, 0, 0) of (byType, totalGasUsed, confirmedCount) \<Rightarrow>
        \<lparr> totalTransactions = length pool,
          pendingTransactions = length (filter (\<lambda>tx. tx_status tx = Pending) pool),
          confirmedTransactions = length (filter (\<lambda>tx. tx_status tx = Confirmed) pool),
          failedTransactions = length (filter (\<lambda>tx. tx_status tx = Failed) pool),
          transactionsByType = byType,
          averageGasUsed = (if confirmedCount > 0
                            then real_of_int totalGasUsed / real confirmedCount else 0) \<rparr>)"


section \<open>Ledger and consensus (EnhancedBlockchainService)\<close>

datatype mechanism = PoA | PoW

datatype nodeType = Validator | Peer | Light

datatype nodeStatus = Active | Inactive

record Node =
  n_id :: string
  n_address :: string
  n_type :: nodeType
  n_status :: nodeStatus
  n_lastSeen :: int
  n_blocksValidated :: int
  n_reputation :: int
  n_stake :: int

record ConsensusState =
  c_mechanism :: mechanism
  c_currentValidator :: "string option"
  c_validators :: "string list"
  c_epoch :: int
  c_blockTime :: int
  c_difficulty :: nat

text \<open>A block; its transaction list is optional in the source (\<open>block.transactions?\<close>).\<close>

record Block =
  b_index :: int
  b_timestamp :: int
  b_data :: json
  b_previousHash :: string
  b_hash :: string
  b_nonce :: int
  b_validator :: string
  b_signature :: string
  b_transactions :: "Transaction list option"
  b_merkleRoot :: string
  b_gasUsed :: int
  b_difficulty :: nat

text \<open>
  The persisted collections. The store hands out structured copies (the project keeps its
  data in IndexedDB), so a collection changes only through \<open>setItem\<close>. The chain and the
  consensus entry may be missing (\<open>None\<close>); a missing node table or pool is the empty list,
  as the accessors return.
\<close>

record Store =
  chain :: "Block list option"
  nodes :: "Node list"
  consensus :: "ConsensusState option"
  pool :: "Transaction list"

definition getBlockchain :: "Store \<Rightarrow> Block list" where
  "getBlockchain st = (case chain st of Some c \<Rightarrow> c | None \<Rightarrow> [])"

definition NETWORK_ID :: string where
  "NETWORK_ID = ''nigeria-evoting-mainnet''"

definition getConsensusState :: "Store \<Rightarrow> ConsensusState" where
  "getConsensusState st =
     (case consensus st of
        Some c \<Rightarrow> c
      | None \<Rightarrow> \<lparr> c_mechanism = PoA, c_currentValidator = None, c_validators = [],
                  c_epoch = 0, c_blockTime = 3000, c_difficulty = 3 \<rparr>)"

definition getActiveValidators :: "Store \<Rightarrow> Node list" where
  "getActiveValidators st = filter (\<lambda>n. n_type n = Validator \<and> n_status n = Active) (nodes st)"

definition txToJson :: "env \<Rightarrow> Transaction \<Rightarrow> json" where
  "txToJson e tx =
     JObj [(''id'', JStr (tx_id tx)),
           (''type'', JStr (tx_type tx)),
           (''from'', JStr (tx_from tx)),
           (''to'', optStr (tx_to tx)),
           (''data'', tx_data tx),
           (''timestamp'', JStr (dateToISO e (tx_timestamp tx))),
           (''signature'', JStr (tx_signature tx)),
           (''status'', JStr (statusText (tx_status tx))),
           (''gasLimit'', JNum (tx_gasLimit tx)),
           (''gasUsed'', optNum (tx_gasUsed tx)),
           (''blockIndex'', optNum (tx_blockIndex tx))]"

definition calculateHash :: "env \<Rightarrow> Block \<Rightarrow> string" where
  "calculateHash e block =
     generateHash e (showInt (b_index block) @ dateToString e (b_timestamp block)
                     @ stringify (b_data block) @ b_previousHash block
                     @ showInt (b_nonce block) @ b_merkleRoot block)"

text \<open>One pass of the inner \<open>for\<close> loop of \<open>calculateMerkleRoot\<close>: neighbours are hashed
  together, an odd last element is carried over.\<close>

fun merkleLevel :: "env \<Rightarrow> string list \<Rightarrow> string list" where
  "merkleLevel e (a # b # rest) = generateHash e (a @ b) # merkleLevel e rest"
| "merkleLevel e [a] = [a]"
| "merkleLevel e [] = []"

text \<open>The outer \<open>while (hashes.length > 1)\<close> loop; it returns the final \<open>hashes\<close>.\<close>

function merkleLoop :: "env \<Rightarrow> string list \<Rightarrow> string list" where
  "merkleLoop e hashes =
     (if length hashes > 1 then merkleLoop e (merkleLevel e hashes) else hashes)"
  by pat_completeness auto
termination
proof (relation "measure (\<lambda>(e, hashes). length hashes)")
  show "wf (measure (\<lambda>(e, hashes). length hashes))"
    by simp
next
  fix e :: env and hashes :: "string list"
  assume more: "1 < length hashes"
  have shrink: "length (merkleLevel e hs) = (length hs + 1) div 2" for hs
    by (induction e hs rule: merkleLevel.induct) simp_all
  from more show "((e, merkleLevel e hashes), (e, hashes)) \<in> measure (\<lambda>(e, hashes). length hashes)"
    by (simp add: shrink)
qed

declare merkleLoop.simps [simp del]

definition calculateMerkleRoot :: "env \<Rightarrow> Transaction list \<Rightarrow> string" where
  "calculateMerkleRoot e transactions =
     (if length transactions = 0 then generateHash e ''empty''
      else case merkleLoop e (map (\<lambda>tx. generateHash e (stringify (txToJson e tx))) transactions) of
             h # _ \<Rightarrow> h
           | [] \<Rightarrow> ''undefined'')"

definition signBlock :: "env \<Rightarrow> Block \<Rightarrow> string" where
  "signBlock e block =
     generateHash e (showInt (b_index block) @ b_hash block @ b_validator block)"

definition validateBlock :: "env \<Rightarrow> Block \<Rightarrow> Block \<Rightarrow> error + unit" where
  "validateBlock e newBlock previousBlock =
     (if b_index newBlock \<noteq> b_index previousBlock + 1 then Inl InvalidBlockIndex
      else if b_previousHash newBlock \<noteq> b_hash previousBlock then Inl InvalidPreviousHash
      else if b_hash newBlock \<noteq> calculateHash e newBlock then Inl InvalidBlockHash
      else case b_transactions newBlock of
             Some txs \<Rightarrow>
               if b_merkleRoot newBlock \<noteq> calculateMerkleRoot e txs then Inl InvalidMerkleRoot
               else Inr ()
           | None \<Rightarrow> Inr ())"

text \<open>\<open>validateBlockchain\<close>: the loop over \<open>i = 1 .. length - 1\<close>, comparing block \<open>i\<close> with
  block \<open>i - 1\<close> and leaving with \<open>false\<close> at the first exception.\<close>

fun validateBlockchain :: "env \<Rightarrow> Block list \<Rightarrow> bool" where
  "validateBlockchain e (previousBlock # currentBlock # rest) =
     (case validateBlock e currentBlock previousBlock of
        Inl err \<Rightarrow> False
      | Inr u \<Rightarrow> validateBlockchain e (currentBlock # rest))"
| "validateBlockchain e [b] = True"
| "validateBlockchain e [] = True"

definition createGenesisBlock :: "env \<Rightarrow> int \<Rightarrow> Block" where
  "createGenesisBlock e now =
     (let genesisData = JObj
            [(''type'', JStr ''genesis''),
             (''message'', JStr ''Nigeria E-Voting System - Enhanced Blockchain Genesis Block''),
             (''timestamp'', JStr (dateToISO e now)),
             (''authority'', JStr ''Independent National Electoral Commission (INEC)''),
             (''networkId'', JStr NETWORK_ID),
             (''features'', JArr [JStr ''PoA Consensus'', JStr ''Smart Contracts'',
                                  JStr ''Real-time Verification''])];
          block = \<lparr> b_index = 0, b_timestamp = now, b_data = genesisData,
                    b_previousHash = ''0'', b_hash = [], b_nonce = 0, b_validator = ''system'',
                    b_signature = [], b_transactions = Some [],
                    b_merkleRoot = calculateMerkleRoot e [], b_gasUsed = 0, b_difficulty = 0 \<rparr>;
          block1 = block\<lparr> b_hash := calculateHash e block \<rparr>
      in block1\<lparr> b_signature := signBlock e block1 \<rparr>)"

text \<open>
  \<open>mineBlockPoW\<close> draws random nonces until the hash starts with \<open>difficulty\<close> zeros. The
  nonces drawn are an input; when they run out before a hash qualifies the search has
  not returned (\<open>None\<close>). The nonce is written into the block, as the source does.
\<close>

fun mineBlockPoW :: "env \<Rightarrow> Block \<Rightarrow> nat \<Rightarrow> int list \<Rightarrow> (Block \<times> string) option" where
  "mineBlockPoW e block d [] = None"
| "mineBlockPoW e block d (n # ns) =
     (let block' = block\<lparr> b_nonce := n \<rparr>;
          hash = calculateHash e block'
      in if take d hash = replicate d (CHR ''0'') then Some (block', hash)
         else mineBlockPoW e block' d ns)"

definition updateValidatorStats :: "int \<Rightarrow> string \<Rightarrow> Store \<Rightarrow> Store" where
  "updateValidatorStats now validatorId st =
     st\<lparr> nodes := mutateFirst (\<lambda>n. n_id n = validatorId)
                     (\<lambda>n. n\<lparr> n_blocksValidated := n_blocksValidated n + 1,
                              n_lastSeen := now,
                              n_reputation := min 100 (n_reputation n + 1) \<rparr>)
                     (nodes st) \<rparr>"

text \<open>\<open>findIndex\<close>: the position of the first match, \<open>-1\<close> when there is none.\<close>

fun findIndex :: "('a \<Rightarrow> bool) \<Rightarrow> 'a list \<Rightarrow> int" where
  "findIndex p [] = -1"
| "findIndex p (x # xs) = (if p x then 0 else (let i = findIndex p xs in if i < 0 then -1 else i + 1))"

definition rotateValidator :: "Store \<Rightarrow> Store" where
  "rotateValidator st =
     (let cons = getConsensusState st;
          validators = getActiveValidators st
      in if length validators = 0 then st
         else
           let currentIndex = findIndex (\<lambda>v. Some (n_id v) = c_currentValidator cons) validators;
               nextIndex = nat ((currentIndex + 1) mod int (length validators))
           in st\<lparr> consensus := Some (cons\<lparr> c_currentValidator := Some (n_id (validators ! nextIndex)),
                                              c_epoch := c_epoch cons + 1 \<rparr>) \<rparr>)"

definition orSystem :: "string option \<Rightarrow> string" where
  "orSystem v = (case v of None \<Rightarrow> ''system'' | Some s \<Rightarrow> if s = [] then ''system'' else s)"

text \<open>The candidate block of \<open>addBlock\<close>, before its hash is computed.\<close>

definition newBlockOf :: "env \<Rightarrow> int \<Rightarrow> Block \<Rightarrow> ConsensusState \<Rightarrow> Transaction list \<Rightarrow> Block" where
  "newBlockOf e now previousBlock cons transactions =
     (let newBlock = \<lparr> b_index = b_index previousBlock + 1, b_timestamp = now,
                       b_data = JObj [(''networkId'', JStr NETWORK_ID),
                                      (''transactionCount'', JNum (int (length transactions)))],
                       b_previousHash = b_hash previousBlock, b_hash = [], b_nonce = 0,
                       b_validator = orSystem (c_currentValidator cons), b_signature = [],
                       b_transactions = Some transactions,
                       b_merkleRoot = calculateMerkleRoot e transactions, b_gasUsed = 0,
                       b_difficulty = c_difficulty cons \<rparr>;
          totalGas = fold (\<lambda>tx sum. sum + gasOrZero (tx_gasUsed tx)) transactions 0
      in newBlock\<lparr> b_gasUsed := totalGas \<rparr>)"

text \<open>
  The second half of \<open>addBlock\<close>, from the call of \<open>validateBlock\<close> on: the exception leaves
  before anything is stored; otherwise the block is pushed, the validator's statistics are
  updated, the authority rotates and the transactions are marked confirmed in the pool.
\<close>

definition commitBlock ::
    "env \<Rightarrow> int \<Rightarrow> Block \<Rightarrow> Block \<Rightarrow> Transaction list \<Rightarrow> Store \<Rightarrow> (error + Block) \<times> Store" where
  "commitBlock e seen newBlock previousBlock transactions st =
     (case validateBlock e newBlock previousBlock of
        Inl err \<Rightarrow> (Inl err, st)
      | Inr u \<Rightarrow>
          let st1 = st\<lparr> chain := Some (getBlockchain st @ [newBlock]) \<rparr>;
              st2 = updateValidatorStats seen (if b_validator newBlock = [] then ''system''
                                               else b_validator newBlock) st1;
              st3 = rotateValidator st2;
              st4 = st3\<lparr> pool := fold (\<lambda>transaction p.
                                    markTransactionConfirmed (tx_id transaction) (b_index newBlock)
                                      (gasOrZero (tx_gasUsed transaction)) p)
                                  transactions (pool st3) \<rparr>
          in (Inr newBlock, st4))"

text \<open>
  \<open>addBlock\<close>. Inputs besides the transactions: the clock readings for the block and for
  \<open>lastSeen\<close>, and the nonces the proof-of-work search draws. \<open>None\<close> means the call does not
  return (the nonce search did not finish); reading \<open>previousBlock.index\<close> on an empty
  chain is the \<open>TypeError\<close>.
\<close>

definition addBlock ::
    "env \<Rightarrow> int \<Rightarrow> int \<Rightarrow> int list \<Rightarrow> Transaction list \<Rightarrow> Store \<Rightarrow> ((error + Block) \<times> Store) option" where
  "addBlock e now seen nonces transactions st =
     (if getBlockchain st = [] then Some (Inl TypeError, st)
      else
        let previousBlock = last (getBlockchain st);
            cons = getConsensusState st;
            newBlock = newBlockOf e now previousBlock cons transactions;
            mined = (if c_mechanism cons = PoW
                     then mineBlockPoW e newBlock (c_difficulty cons) nonces
                     else Some (newBlock, calculateHash e newBlock))
        in case mined of
             None \<Rightarrow> None
           | Some (newBlock1, hash) \<Rightarrow>
               let newBlock2 = newBlock1\<lparr> b_hash := hash \<rparr>;
                   newBlock3 = newBlock2\<lparr> b_signature := signBlock e newBlock2 \<rparr>
               in Some (commitBlock e seen newBlock3 previousBlock transactions st))"


section \<open>Monitoring (BlockchainMonitoringService)\<close>

datatype health = Healthy | Degraded | Critical

datatype overall = OverallHealthy | OverallWarning | OverallCritical

definition blockTimeWarning :: real where
  "blockTimeWarning = 10000"

definition blockTimeCritical :: real where
  "blockTimeCritical = 30000"

definition pendingTransactionsWarning :: nat where
  "pendingTransactionsWarning = 100"

definition pendingTransactionsCritical :: nat where
  "pendingTransactionsCritical = 500"

record NetworkStatus =
  ns_totalNodes :: nat
  ns_activeNodes :: nat
  ns_validators :: nat
  ns_networkHealth :: health

definition getNetworkStatus :: "Store \<Rightarrow> NetworkStatus" where
  "getNetworkStatus st =
     (let activeNodes = filter (\<lambda>n. n_status n = Active) (nodes st);
          validators = filter (\<lambda>n. n_type n = Validator \<and> n_status n = Active) (nodes st);
          networkHealth =
            (if length validators < 2 then Critical
             else if real (length activeNodes) < real (length (nodes st)) * 0.5 then Degraded
             else Healthy)
      in \<lparr> ns_totalNodes = length (nodes st), ns_activeNodes = length activeNodes,
           ns_validators = length validators, ns_networkHealth = networkHealth \<rparr>)"

text \<open>\<open>calculateBlockTimes\<close>: the loop runs \<open>i\<close> from \<open>1\<close> while \<open>i < Math.min(chain.length, 100)\<close>.\<close>

definition calculateBlockTimes :: "Block list \<Rightarrow> int list" where
  "calculateBlockTimes ch =
     map (\<lambda>i. b_timestamp (ch ! i) - b_timestamp (ch ! (i - 1))) [1 ..< min (length ch) 100]"

definition averageBlockTime :: "Block list \<Rightarrow> real" where
  "averageBlockTime ch =
     (let blockTimes = calculateBlockTimes ch
      in if length blockTimes > 0
         then real_of_int (fold (\<lambda>b a. a + b) blockTimes 0) / real (length blockTimes)
         else 0)"

definition sliceLast :: "nat \<Rightarrow> 'a list \<Rightarrow> 'a list" where
  "sliceLast k xs = drop (length xs - k) xs"

definition txCount :: "Block \<Rightarrow> nat" where
  "txCount block = (case b_transactions block of None \<Rightarrow> 0 | Some txs \<Rightarrow> length txs)"

definition calculateTPS :: "Block list \<Rightarrow> real" where
  "calculateTPS ch =
     (let recentBlocks = sliceLast 10 ch
      in if length recentBlocks < 2 then 0
         else
           let totalTransactions = fold (\<lambda>block sum. sum + txCount block) recentBlocks 0;
               timeSpan = real_of_int (b_timestamp (last recentBlocks) - b_timestamp (hd recentBlocks)) / 1000
           in if timeSpan > 0 then real totalTransactions / timeSpan else 0)"

definition calculateNetworkHashRate :: "Block list \<Rightarrow> nat \<Rightarrow> real" where
  "calculateNetworkHashRate ch d =
     (let recentBlocks = sliceLast 100 ch
      in if length recentBlocks < 2 then 0
         else
           let hashesPerBlock = (2::real) ^ (d * 4);
               totalHashes = real (length recentBlocks) * hashesPerBlock;
               timeSpan = real_of_int (b_timestamp (last recentBlocks) - b_timestamp (hd recentBlocks)) / 1000
           in if timeSpan > 0 then totalHashes / timeSpan else 0)"

record BlockchainMetrics =
  m_totalBlocks :: nat
  m_totalTransactions :: nat
  m_averageBlockTime :: real
  m_transactionsPerSecond :: real
  m_networkHashRate :: real
  m_activeNodes :: nat
  m_consensusHealth :: health
  m_chainValidity :: bool
  m_lastBlockTime :: int
  m_pendingTransactions :: nat

definition getRealtimeMetrics :: "env \<Rightarrow> int \<Rightarrow> Store \<Rightarrow> BlockchainMetrics" where
  "getRealtimeMetrics e now st =
     (let ch = getBlockchain st;
          transactionStats = getTransactionStats (pool st);
          networkStatus = getNetworkStatus st;
          cons = getConsensusState st;
          avg = averageBlockTime ch;
          tps = calculateTPS ch;
          hashRate = calculateNetworkHashRate ch (c_difficulty cons);
          chainValid = validateBlockchain e ch;
          consensusHealth =
            (if ns_networkHealth networkStatus = Critical \<or> \<not> chainValid then Critical
             else if ns_networkHealth networkStatus = Degraded \<or> avg > blockTimeWarning then Degraded
             else Healthy)
      in \<lparr> m_totalBlocks = length ch,
           m_totalTransactions = totalTransactions transactionStats,
           m_averageBlockTime = avg,
           m_transactionsPerSecond = tps,
           m_networkHashRate = hashRate,
           m_activeNodes = ns_activeNodes networkStatus,
           m_consensusHealth = consensusHealth,
           m_chainValidity = chainValid,
           m_lastBlockTime = (if length ch > 0 then b_timestamp (last ch) else now),
           m_pendingTransactions = pendingTransactions transactionStats \<rparr>)"

record HealthReport =
  h_overall :: overall
  h_issues :: "string list"
  h_recommendations :: "string list"

text \<open>One \<open>issues.push\<close>, \<open>recommendations.push\<close> and the assignment to \<open>overall\<close> beside them.\<close>

definition raise :: "string \<Rightarrow> string \<Rightarrow> (overall \<Rightarrow> overall) \<Rightarrow> HealthReport \<Rightarrow> HealthReport" where
  "raise issue recommendation f r =
     \<lparr> h_overall = f (h_overall r), h_issues = h_issues r @ [issue],
       h_recommendations = h_recommendations r @ [recommendation] \<rparr>"

definition mathRound :: "real \<Rightarrow> int" where
  "mathRound x = \<lfloor>x + 1 / 2\<rfloor>"

text \<open>The body of \<open>getBlockchainHealth\<close> after the metrics have been read.\<close>

definition healthOfMetrics :: "BlockchainMetrics \<Rightarrow> HealthReport" where
  "healthOfMetrics metrics =
     (let r0 = \<lparr> h_overall = OverallHealthy, h_issues = [], h_recommendations = [] \<rparr>;
          r1 = (if \<not> m_chainValidity metrics
                then raise ''Blockchain integrity compromised''
                       ''Investigate and resolve chain validation errors immediately''
                       (\<lambda>ov. OverallCritical) r0
                else r0);
          r2 = (if m_consensusHealth metrics = Critical
                then raise ''Consensus mechanism in critical state''
                       ''Check validator nodes and ensure minimum required validators are active''
                       (\<lambda>ov. OverallCritical) r1
                else r1);
          r3 = (if m_pendingTransactions metrics > pendingTransactionsCritical
                then raise (''High pending transaction count: '' @ showNat (m_pendingTransactions metrics))
                       ''Increase block production rate or batch size''
                       (\<lambda>ov. if ov \<noteq> OverallCritical then OverallWarning else ov) r2
                else r2);
          r4 = (if m_averageBlockTime metrics > blockTimeCritical
                then raise (''Block time critically high: ''
                             @ showInt (mathRound (m_averageBlockTime metrics)) @ ''ms'')
                       ''Check network connectivity and validator performance''
                       (\<lambda>ov. OverallCritical) r3
                else if m_averageBlockTime metrics > blockTimeWarning
                then raise (''Block time elevated: ''
                             @ showInt (mathRound (m_averageBlockTime metrics)) @ ''ms'')
                       ''Monitor validator performance''
                       (\<lambda>ov. if ov = OverallHealthy then OverallWarning else ov) r3
                else r3);
          r5 = (if m_activeNodes metrics < 3
                then raise ''Low node count'' ''Ensure minimum required nodes are online''
                       (\<lambda>ov. if ov = OverallHealthy then OverallWarning else ov) r4
                else r4)
      in if length (h_issues r5) = 0
         then \<lparr> h_overall = OverallHealthy, h_issues = [],
                h_recommendations = [''System operating normally''] \<rparr>
         else r5)"

definition getBlockchainHealth :: "env \<Rightarrow> int \<Rightarrow> Store \<Rightarrow> HealthReport" where
  "getBlockchainHealth e now st = healthOfMetrics (getRealtimeMetrics e now st)"

section \<open>Rule engine (SmartContractService)\<close>

text \<open>
  The argument of the election rule: the candidate list may be missing, and a date that
  does not parse gives \<open>NaN\<close> (\<open>None\<close>), on which every comparison is false. The
  durations that occur are exact quotients, so the comparisons are those of the reals.
\<close>

record 'c Election =
  candidates :: "'c list option"
  startDate :: "int option"
  endDate :: "int option"

definition durationDays :: "'c Election \<Rightarrow> real option" where
  "durationDays election =
     (case (endDate election, startDate election) of
        (Some t1, Some t0) \<Rightarrow> Some (real_of_int (t1 - t0) / (1000 * 60 * 60 * 24))
      | _ \<Rightarrow> None)"

text \<open>
  The function that the code text of the \<open>election_rules\<close> contract declares. The program
  does not call it: it reaches a rule only through \<open>executeContract\<close>, which evaluates the
  code text first (see \<open>newFunctionReturn\<close> below).
\<close>

definition validateElectionRules :: "'c Election \<Rightarrow> validation" where
  "validateElectionRules election =
     (let minCandidates = 2; maxDurationDays = 365
      in if (case candidates election of None \<Rightarrow> True | Some cs \<Rightarrow> length cs < minCandidates)
         then Invalid ''Insufficient candidates''
         else
           let duration = durationDays election
           in if (case duration of None \<Rightarrow> False
                  | Some d \<Rightarrow> d > real maxDurationDays \<or> d < 1)
              then Invalid ''Invalid election duration''
              else Valid)"

text \<open>A contract: the fields the deployer supplies, then those \<open>deployContract\<close> adds.\<close>

record ContractData =
  sc_name :: string
  sc_type :: string
  sc_code :: string
  sc_deployedBy :: string
  sc_parameters :: json

record SmartContract = ContractData +
  sc_id :: string
  sc_deployedAt :: int
  sc_executionCount :: int
  sc_isActive :: bool
  sc_lastExecuted :: "int option"

text \<open>
  A template literal written over several source lines, opening with a line break: every
  line of the list is preceded by one. The last entry is the indentation before the closing
  back quote.
\<close>

definition templateText :: "string list \<Rightarrow> string" where
  "templateText ls = concat (map (\<lambda>l. CHR 0x0A # l) ls)"

definition electionRulesCode :: string where
  "electionRulesCode = templateText
     [''          function validateElectionRules(election) {'',
      ''            const rules = {'',
      ''              minCandidates: 2,'',
      ''              maxDurationDays: 365,'',
      ''              requiresVerification: true'',
      ''            };'',
      ''            '',
      ''            if (!election.candidates || election.candidates.length < rules.minCandidates) {'',
      ''              return { valid: false, reason: 'Insufficient candidates' };'',
      ''            }'',
      ''            '',
      ''            const duration = (new Date(election.endDate) - new Date(election.startDate)) / (1000 * 60 * 60 * 24);'',
      ''            if (duration > rules.maxDurationDays || duration < 1) {'',
      ''              return { valid: false, reason: 'Invalid election duration' };'',
      ''            }'',
      ''            '',
      ''            return { valid: true };'',
      ''          }'',
      ''        '']"

definition votingValidationCode :: string where
  "votingValidationCode = templateText
     [''          function validateVote(vote, voter, election) {'',
      ''            if (!voter.isVerified || !voter.isActive) {'',
      ''              return { valid: false, reason: 'Voter not verified or inactive' };'',
      ''            }'',
      ''            '',
      ''            if (voter.hasVoted[election.id]) {'',
      ''              return { valid: false, reason: 'Voter has already voted in this election' };'',
      ''            }'',
      ''            '',
      ''            if (!voter.eligibleElections.includes(election.id)) {'',
      ''              return { valid: false, reason: 'Voter not eligible for this election' };'',
      ''            }'',
      ''            '',
      ''            const now = new Date();'',
      ''            if (now < new Date(election.startDate) || now > new Date(election.endDate)) {'',
      ''              return { valid: false, reason: 'Election not active' };'',
      ''            }'',
      ''            '',
      ''            return { valid: true };'',
      ''          }'',
      ''        '']"

definition resultCalculationCode :: string where
  "resultCalculationCode = templateText
     [''          function calculateResults(votes, candidates) {'',
      ''            const voteCounts = {};'',
      ''            candidates.forEach(c => voteCounts[c.id] = 0);'',
      ''            '',
      ''            votes.forEach(vote => {'',
      ''              if (voteCounts[vote.candidateId] !== undefined) {'',
      ''                voteCounts[vote.candidateId]++;'',
      ''              }'',
      ''            });'',
      ''            '',
      ''            const totalVotes = votes.length;'',
      ''            const results = candidates.map(candidate => ({'',
      ''              candidateId: candidate.id,'',
      ''              candidateName: candidate.name,'',
      ''              party: candidate.party,'',
      ''              voteCount: voteCounts[candidate.id],'',
      ''              percentage: totalVotes > 0 ? (voteCounts[candidate.id] / totalVotes) * 100 : 0'',
      ''            }));'',
      ''            '',
      ''            results.sort((a, b) => b.voteCount - a.voteCount);'',
      ''            '',
      ''            return {'',
      ''              results,'',
      ''              totalVotes,'',
      ''              winner: results[0]'',
      ''            };'',
      ''          }'',
      ''        '']"

text \<open>
  \<open>executeContract\<close> obtains the rule as \<open>new Function('return ' + contract.code)()\<close>. A
  \<open>return\<close> followed by a line break before any token ends there (automatic semicolon
  insertion), and the call gives \<open>undefined\<close>, which is not callable; this is stated for a
  text whose remainder parses, as the three built-in texts do. In every other case the
  value is what the JavaScript engine makes of the expression text: the engine is a
  parameter, and its answer is an exception, a value that cannot be called, or a function
  (which returns a result or throws a message).
\<close>

datatype 'f evaluated = Throws string | NotCallable | Callable 'f

fun returnEndsAtLineBreak :: "string \<Rightarrow> bool" where
  "returnEndsAtLineBreak [] = True"
| "returnEndsAtLineBreak (c # cs) =
     (if c = CHR 0x0A \<or> c = CHR 0x0D then True
      else if c = CHR '' '' \<or> c = CHR 0x09 \<or> c = CHR 0x0B \<or> c = CHR 0x0C
      then returnEndsAtLineBreak cs
      else False)"

definition newFunctionReturn :: "(string \<Rightarrow> 'f evaluated) \<Rightarrow> string \<Rightarrow> 'f evaluated" where
  "newFunctionReturn engine code =
     (if returnEndsAtLineBreak code then NotCallable else engine code)"

datatype contractError =
    ContractNotFound
  | ContractNotActive
  | ExecutionFailed string
  | NoActiveContract string

definition getContract :: "string \<Rightarrow> SmartContract list \<Rightarrow> SmartContract option" where
  "getContract contractId contracts = find (\<lambda>c. sc_id c = contractId) contracts"

definition updateContract :: "SmartContract \<Rightarrow> SmartContract list \<Rightarrow> SmartContract list" where
  "updateContract contract contracts =
     mutateFirst (\<lambda>c. sc_id c = sc_id contract) (\<lambda>c. contract) contracts"

definition deployContract ::
    "string \<Rightarrow> int \<Rightarrow> ContractData \<Rightarrow> SmartContract list \<Rightarrow> SmartContract \<times> SmartContract list" where
  "deployContract uuid now contractData contracts =
     (let contract = \<lparr> sc_name = sc_name contractData, sc_type = sc_type contractData,
                        sc_code = sc_code contractData, sc_deployedBy = sc_deployedBy contractData,
                        sc_parameters = sc_parameters contractData,
                        sc_id = uuid, sc_deployedAt = now, sc_executionCount = 0,
                        sc_isActive = True, sc_lastExecuted = None \<rparr>
      in (contract, contracts @ [contract]))"

definition deployDefaultContracts :: "(nat \<Rightarrow> string) \<Rightarrow> int \<Rightarrow> SmartContract list \<Rightarrow> SmartContract list" where
  "deployDefaultContracts uuid now existingContracts =
     (if length existingContracts = 0
      then
        let c1 = snd (deployContract (uuid 0) now
                   \<lparr> sc_name = ''Election Validation Rules'', sc_type = ''election_rules'',
                     sc_code = electionRulesCode, sc_deployedBy = ''system'',
                     sc_parameters = JObj [(''minCandidates'', JNum 2),
                                           (''maxDurationDays'', JNum 365)] \<rparr>
                   existingContracts);
            c2 = snd (deployContract (uuid 1) now
                   \<lparr> sc_name = ''Vote Validation'', sc_type = ''voting_validation'',
                     sc_code = votingValidationCode, sc_deployedBy = ''system'',
                     sc_parameters = JObj [] \<rparr> c1)
        in snd (deployContract (uuid 2) now
                   \<lparr> sc_name = ''Result Calculation'', sc_type = ''result_calculation'',
                     sc_code = resultCalculationCode, sc_deployedBy = ''system'',
                     sc_parameters = JObj [] \<rparr> c2)
      else existingContracts)"

text \<open>
  \<open>executeContract\<close> with one argument. Calling a value that is not a function raises inside
  the \<open>try\<close> block, so it ends as an execution failure like an exception of the rule itself,
  and the execution counter is not touched.
\<close>

definition executeContract ::
    "(string \<Rightarrow> ('a \<Rightarrow> string + 'r) evaluated) \<Rightarrow> int \<Rightarrow> string \<Rightarrow> 'a \<Rightarrow> SmartContract list
     \<Rightarrow> (contractError + 'r) \<times> SmartContract list" where
  "executeContract engine now contractId arg contracts =
     (case getContract contractId contracts of
        None \<Rightarrow> (Inl ContractNotFound, contracts)
      | Some contract \<Rightarrow>
          if \<not> sc_isActive contract then (Inl ContractNotActive, contracts)
          else
            case newFunctionReturn engine (sc_code contract) of
              Throws message \<Rightarrow> (Inl (ExecutionFailed message), contracts)
            | NotCallable \<Rightarrow> (Inl (ExecutionFailed ''func is not a function''), contracts)
            | Callable func \<Rightarrow>
                (case func arg of
                   Inl message \<Rightarrow> (Inl (ExecutionFailed message), contracts)
                 | Inr result \<Rightarrow>
                     (Inr result,
                      updateContract
                        (contract\<lparr> sc_executionCount := sc_executionCount contract + 1,
                                   sc_lastExecuted := Some now \<rparr>)
                        contracts)))"

definition executeContractByType ::
    "(string \<Rightarrow> ('a \<Rightarrow> string + 'r) evaluated) \<Rightarrow> int \<Rightarrow> string \<Rightarrow> 'a \<Rightarrow> SmartContract list
     \<Rightarrow> (contractError + 'r) \<times> SmartContract list" where
  "executeContractByType engine now t arg contracts =
     (case find (\<lambda>c. sc_type c = t \<and> sc_isActive c) contracts of
        None \<Rightarrow> (Inl (NoActiveContract t), contracts)
      | Some contract \<Rightarrow> executeContract engine now (sc_id contract) arg contracts)"

text \<open>\<open>validateElection\<close>: any failure of the execution is answered with
  \<open>{ valid: false, reason: 'Validation failed' }\<close>.\<close>

definition validateElection ::
    "(string \<Rightarrow> ('c Election \<Rightarrow> string + validation) evaluated) \<Rightarrow> int \<Rightarrow> 'c Election \<Rightarrow> 'c list
     \<Rightarrow> SmartContract list \<Rightarrow> validation \<times> SmartContract list" where
  "validateElection engine now election cands contracts =
     (case executeContractByType engine now ''election_rules''
             (election\<lparr> candidates := Some cands \<rparr>) contracts of
        (Inl err, contracts') \<Rightarrow> (Invalid ''Validation failed'', contracts')
      | (Inr result, contracts') \<Rightarrow> (result, contracts'))"

text \<open>
  Initialisation. \<open>createNode\<close> and the three \<open>initialize\<close> functions; the fresh identifiers
  and the clock are inputs. The genesis block is created only when no chain is stored.
\<close>

definition createNode :: "string \<Rightarrow> int \<Rightarrow> nodeType \<Rightarrow> string \<Rightarrow> Node" where
  "createNode uuid now t address =
     \<lparr> n_id = uuid, n_address = address, n_type = t, n_status = Active, n_lastSeen = now,
       n_blocksValidated = 0, n_reputation = 100,
       n_stake = (if t = Validator then 1000000 else 0) \<rparr>"

definition initializeNetwork :: "(nat \<Rightarrow> string) \<Rightarrow> int \<Rightarrow> Store \<Rightarrow> Store" where
  "initializeNetwork uuid now st =
     (if length (nodes st) = 0
      then st\<lparr> nodes := [createNode (uuid 0) now Validator ''INEC-Primary-Validator'',
                          createNode (uuid 1) now Validator ''INEC-Secondary-Validator'',
                          createNode (uuid 2) now Validator ''INEC-Tertiary-Validator'',
                          createNode (uuid 3) now Peer ''Regional-Node-Lagos'',
                          createNode (uuid 4) now Peer ''Regional-Node-Abuja'',
                          createNode (uuid 5) now Peer ''Regional-Node-Kano''] \<rparr>
      else st)"

definition initializeConsensus :: "Store \<Rightarrow> Store" where
  "initializeConsensus st =
     (case consensus st of
        Some c \<Rightarrow> st
      | None \<Rightarrow>
          let validators = filter (\<lambda>n. n_type n = Validator \<and> n_status n = Active) (nodes st)
          in st\<lparr> consensus := Some
                 \<lparr> c_mechanism = PoA,
                   c_currentValidator = (case validators of [] \<Rightarrow> None | v # vs \<Rightarrow> Some (n_id v)),
                   c_validators = map n_id validators,
                   c_epoch = 0, c_blockTime = 3000, c_difficulty = 3 \<rparr> \<rparr>)"

definition initializeBlockchain :: "env \<Rightarrow> (nat \<Rightarrow> string) \<Rightarrow> int \<Rightarrow> Store \<Rightarrow> Store" where
  "initializeBlockchain e uuid now st =
     (let st1 = (case chain st of
                   None \<Rightarrow> st\<lparr> chain := Some [createGenesisBlock e now] \<rparr>
                 | Some existingChain \<Rightarrow> st)
      in initializeConsensus (initializeNetwork uuid now st1))"

section \<open>Running sequences of operations\<close>

text \<open>The pool operations as data, so that properties can quantify over any sequence of
  calls; a failed submission leaves the pool as it was.\<close>

datatype poolOp =
    Submit Transaction
  | MarkConfirmed string int int
  | MarkFailed string
  | RemovePending string
  | ClearConfirmed int "int option"

fun applyPoolOp :: "poolOp \<Rightarrow> Transaction list \<Rightarrow> Transaction list" where
  "applyPoolOp (Submit tx) pl = (case submitTransaction tx pl of Inl err \<Rightarrow> pl | Inr p \<Rightarrow> p)"
| "applyPoolOp (MarkConfirmed tid bi g) pl = markTransactionConfirmed tid bi g pl"
| "applyPoolOp (MarkFailed tid) pl = markTransactionFailed tid pl"
| "applyPoolOp (RemovePending tid) pl = removePendingTransaction tid pl"
| "applyPoolOp (ClearConfirmed now olderThan) pl = snd (clearConfirmedTransactions now olderThan pl)"

fun isSubmit :: "poolOp \<Rightarrow> bool" where
  "isSubmit (Submit tx) = True"
| "isSubmit _ = False"

fun isMark :: "poolOp \<Rightarrow> bool" where
  "isMark (MarkConfirmed tid bi g) = True"
| "isMark (MarkFailed tid) = True"
| "isMark _ = False"

fun submitAll :: "Transaction list \<Rightarrow> Transaction list \<Rightarrow> error + Transaction list" where
  "submitAll [] pl = Inr pl"
| "submitAll (tx # txs) pl =
     (case submitTransaction tx pl of Inl err \<Rightarrow> Inl err | Inr p \<Rightarrow> submitAll txs p)"

text \<open>A transparent environment (the digest is the identity, dates are written as their
  millisecond count) on which the definitions can be run on concrete inputs.\<close>

definition plainEnv :: env where
  "plainEnv = \<lparr> generateHash = (\<lambda>s. s), dateToString = showInt, dateToISO = showInt \<rparr>"

definition sampleTx :: Transaction where
  "sampleTx = createTransaction plainEnv ''t1'' 0 ''vote'' ''alice'' (JStr ''A'') None"

definition sampleTx2 :: Transaction where
  "sampleTx2 = createTransaction plainEnv ''t2'' 5 ''vote'' ''bob'' (JStr ''B'') None"

text \<open>The pool after two submissions that were then confirmed with 0 and with 100 gas.\<close>

definition gasPool :: "Transaction list" where
  "gasPool = markTransactionConfirmed ''t2'' 1 100
               (markTransactionConfirmed ''t1'' 1 0 [sampleTx, sampleTx2])"

text \<open>
  A run of \<open>addBlock\<close> calls, each with its clock readings, nonces and transactions. The
  result is \<open>Some\<close> store when every call returned a block, \<open>None\<close> as soon as one call
  raised or did not return.
\<close>

fun addBlocks ::
    "env \<Rightarrow> (int \<times> int \<times> int list \<times> Transaction list) list \<Rightarrow> Store \<Rightarrow> Store option" where
  "addBlocks e [] st = Some st"
| "addBlocks e ((now, seen, nonces, transactions) # calls) st =
     (case addBlock e now seen nonces transactions st of
        Some (Inr block, st') \<Rightarrow> addBlocks e calls st'
      | _ \<Rightarrow> None)"

definition emptyStore :: Store where
  "emptyStore = \<lparr> chain = None, nodes = [], consensus = None, pool = [] \<rparr>"

definition sampleUuid :: "nat \<Rightarrow> string" where
  "sampleUuid k = CHR ''n'' # showNat k"

text \<open>The store after initialisation at time 0, with \<open>n\<close> pending transactions in the pool.\<close>

definition sampleStore :: "nat \<Rightarrow> Store" where
  "sampleStore n = (initializeBlockchain plainEnv sampleUuid 0 emptyStore)\<lparr> pool := replicate n sampleTx \<rparr>"

text \<open>The same store after the authority has been set to an identifier that no active
  validator carries.\<close>

definition strayStore :: Store where
  "strayStore = (sampleStore 0)\<lparr> consensus :=
     Some ((getConsensusState (sampleStore 0))\<lparr> c_currentValidator := Some ''retired'' \<rparr>) \<rparr>"

text \<open>An election that lasts exactly one day; its two candidates are passed beside it.\<close>

definition oneDayElection :: "string Election" where
  "oneDayElection = \<lparr> candidates = None, startDate = Some 0, endDate = Some 86400000 \<rparr>"

text \<open>A block that only carries an index and a time stamp, and a chain of 101 of them: one
  second between neighbours, except for 50 seconds before the last block.\<close>

definition blockAt :: "int \<Rightarrow> int \<Rightarrow> Block" where
  "blockAt i t =
     \<lparr> b_index = i, b_timestamp = t, b_data = JNull, b_previousHash = [], b_hash = [],
       b_nonce = 0, b_validator = ''system'', b_signature = [], b_transactions = Some [],
       b_merkleRoot = [], b_gasUsed = 0, b_difficulty = 0 \<rparr>"

definition lateChain :: "Block list" where
  "lateChain = map (\<lambda>i. blockAt (int i) (1000 * int i)) [0 ..< 100] @ [blockAt 100 149000]"

text \<open>The calls that produce such a chain from the initialised store: 99 blocks one second
  apart, then one block 50 seconds later.\<close>

definition lateCalls :: "(int \<times> int \<times> int list \<times> Transaction list) list" where
  "lateCalls = map (\<lambda>i. (1000 * int i, 1000 * int i, [], [])) [1 ..< 100]
               @ [(149000, 149000, [], [])]"

section \<open>The specification's reading of derived figures\<close>

text \<open>The mean gas as the specification words it: the gas of all confirmed transactions
  over their number, \<open>0\<close> when none is confirmed.\<close>

definition spec_averageGasUsed :: "Transaction list \<Rightarrow> real" where
  "spec_averageGasUsed pl =
     (let confirmed = filter (\<lambda>tx. tx_status tx = Confirmed) pl
      in if confirmed = [] then 0
         else real_of_int (sum_list (map (\<lambda>tx. gasOrZero (tx_gasUsed tx)) confirmed))
              / real (length confirmed))"

text \<open>The mean block time as the specification words it: the mean of the gaps between
  neighbouring blocks among the last 100 blocks, \<open>0\<close> when there are fewer than 2 blocks.\<close>

definition spec_averageBlockTime :: "Block list \<Rightarrow> real" where
  "spec_averageBlockTime ch =
     (let window = sliceLast 100 ch;
          gaps = map (\<lambda>i. b_timestamp (window ! i) - b_timestamp (window ! (i - 1))) [1 ..< length window]
      in if gaps = [] then 0 else real_of_int (sum_list gaps) / real (length gaps))"

section \<open>Properties of the transaction pool\<close>

lemma length_mutateFirst: "length (mutateFirst p f xs) = length xs"
  by (induction xs) simp_all

lemma nth_mutateFirst:
  "i < length xs \<Longrightarrow>
   mutateFirst p f xs ! i = (if p (xs ! i) \<and> (\<forall>j<i. \<not> p (xs ! j)) then f (xs ! i) else xs ! i)"
proof (induction xs arbitrary: i)
  case Nil
  then show ?case by simp
next
  case (Cons x xs)
  show ?case
  proof (cases i)
    case 0
    then show ?thesis by simp
  next
    case (Suc k)
    with Cons.prems have k: "k < length xs" by simp
    show ?thesis
    proof (cases "p x")
      case True
      then show ?thesis using Suc by auto
    next
      case False
      have eq: "(\<forall>j<Suc k. \<not> p ((x # xs) ! j)) = (\<forall>j<k. \<not> p (xs ! j))"
        using False by (auto simp: less_Suc_eq_0_disj)
      have "mutateFirst p f (x # xs) ! i = mutateFirst p f xs ! k"
        using False Suc by simp
      also have "\<dots> = (if p (xs ! k) \<and> (\<forall>j<k. \<not> p (xs ! j)) then f (xs ! k) else xs ! k)"
        by (rule Cons.IH [OF k])
      also have "\<dots> = (if p ((x # xs) ! i) \<and> (\<forall>j<i. \<not> p ((x # xs) ! j))
                        then f ((x # xs) ! i) else (x # xs) ! i)"
        by (simp only: Suc eq nth_Cons_Suc)
      finally show ?thesis .
    qed
  qed
qed

lemma applyPoolOp_length_le:
  "length pl \<le> MAX_POOL_SIZE \<Longrightarrow> length (applyPoolOp op pl) \<le> MAX_POOL_SIZE"
  by (cases op)
     (auto simp: submitTransaction_def markTransactionConfirmed_def markTransactionFailed_def
        removePendingTransaction_def clearConfirmedTransactions_def Let_def length_mutateFirst
        intro: le_trans [OF length_filter_le]
        split: validation.splits)

lemma applyPoolOp_not_submit:
  "\<not> isSubmit op \<Longrightarrow> length (applyPoolOp op pl) \<le> length pl"
  by (cases op)
     (auto simp: markTransactionConfirmed_def markTransactionFailed_def
        removePendingTransaction_def clearConfirmedTransactions_def Let_def length_mutateFirst)

lemma fold_applyPoolOp_bound:
  "length pl \<le> MAX_POOL_SIZE \<Longrightarrow> length (fold applyPoolOp ops pl) \<le> MAX_POOL_SIZE"
  by (induction ops arbitrary: pl) (simp_all add: applyPoolOp_length_le)

lemma submitAll_valid:
  "\<forall>tx\<in>set txs. validateTransaction tx = Valid \<Longrightarrow> length pl + length txs \<le> MAX_POOL_SIZE \<Longrightarrow>
   submitAll txs pl = Inr (pl @ txs)"
  by (induction txs arbitrary: pl) (auto simp: submitTransaction_def)

text \<open>
  Claim C8. The pool never holds more than 1000 entries. A submission to a pool that
  already holds 1000 entries or more fails and stores nothing, with the capacity error when
  the transaction is valid; a valid transaction submitted to a pool with room is appended.
  Whatever sequence of pool operations runs, a pool of at most 1000 entries keeps at most
  1000 entries, and every operation other than a submission leaves the pool no longer than
  it was. In particular 1000 valid transactions submitted to the empty pool are all
  accepted, and the next submission fails with the capacity error.
\<close>

theorem pool_capacity:
  "(MAX_POOL_SIZE \<le> length pl \<longrightarrow>
      (\<exists>err. submitTransaction tx pl = Inl err)
      \<and> (validateTransaction tx = Valid \<longrightarrow> submitTransaction tx pl = Inl PoolFull))
   \<and> (length pl < MAX_POOL_SIZE \<and> validateTransaction tx = Valid \<longrightarrow>
        submitTransaction tx pl = Inr (pl @ [tx]))
   \<and> (length pl \<le> 1000 \<longrightarrow> length (fold applyPoolOp ops pl) \<le> 1000)
   \<and> (\<not> isSubmit op \<longrightarrow> length (applyPoolOp op pl) \<le> length pl)
   \<and> ((\<forall>t\<in>set txs. validateTransaction t = Valid) \<and> length txs = 1000
        \<and> validateTransaction tx = Valid \<longrightarrow>
        submitAll txs [] = Inr txs \<and> submitTransaction tx txs = Inl PoolFull)"
proof -
  have full: "MAX_POOL_SIZE \<le> length pl \<longrightarrow>
      (\<exists>err. submitTransaction tx pl = Inl err)
      \<and> (validateTransaction tx = Valid \<longrightarrow> submitTransaction tx pl = Inl PoolFull)"
    by (simp add: submitTransaction_def split: validation.splits)
  have room: "length pl < MAX_POOL_SIZE \<and> validateTransaction tx = Valid \<longrightarrow>
        submitTransaction tx pl = Inr (pl @ [tx])"
    by (simp add: submitTransaction_def)
  have inv: "length pl \<le> 1000 \<longrightarrow> length (fold applyPoolOp ops pl) \<le> 1000"
    using fold_applyPoolOp_bound [of pl ops] by (simp add: MAX_POOL_SIZE_def)
  have others: "\<not> isSubmit op \<longrightarrow> length (applyPoolOp op pl) \<le> length pl"
    by (simp add: applyPoolOp_not_submit)
  have thousand: "(\<forall>t\<in>set txs. validateTransaction t = Valid) \<and> length txs = 1000
        \<and> validateTransaction tx = Valid \<longrightarrow>
        submitAll txs [] = Inr txs \<and> submitTransaction tx txs = Inl PoolFull"
    using submitAll_valid [of txs "[]"]
    by (simp add: MAX_POOL_SIZE_def submitTransaction_def)
  from full room inv others thousand show ?thesis by blast
qed

lemma sampleTx_valid: "validateTransaction sampleTx = Valid"
  by (simp add: sampleTx_def createTransaction_def validateTransaction_def validTypes_def
      signTransaction_def plainEnv_def Let_def)

theorem pool_capacity_witness:
  "submitAll (replicate 1000 sampleTx) [] = Inr (replicate 1000 sampleTx)
   \<and> submitTransaction sampleTx (replicate 1000 sampleTx) = Inl PoolFull
   \<and> submitTransaction sampleTx [] = Inr [sampleTx]
   \<and> length (fold applyPoolOp [Submit sampleTx, MarkFailed ''t1''] (replicate 1000 sampleTx)) \<le> 1000
   \<and> length (applyPoolOp (RemovePending ''t1'') [sampleTx]) \<le> length [sampleTx]"
  using pool_capacity [of "replicate 1000 sampleTx" sampleTx "[Submit sampleTx, MarkFailed ''t1'']"
                          "RemovePending ''t1''" "replicate 1000 sampleTx"]
        pool_capacity [of "[]" sampleTx "[]" "RemovePending ''t1''" "[]"]
        pool_capacity [of "[sampleTx]" sampleTx "[]" "RemovePending ''t1''" "[]"]
  by (simp add: sampleTx_valid MAX_POOL_SIZE_def submitTransaction_def markTransactionFailed_def
      removePendingTransaction_def length_mutateFirst)

text \<open>
  Claim C10. Admission does not check the signature. Take a signed transaction, replace
  its payload by another truthy value, and suppose the signature no longer verifies: as
  long as identifier, signature and sender are non-empty and the type is one of the five
  tags, \<open>validateTransaction\<close> accepts the altered transaction and \<open>submitTransaction\<close>
  appends it to a pool that is not full.
\<close>

theorem admission_ignores_signature:
  assumes "tx_signature tx = signTransaction e tx"
    and "tx' = tx\<lparr> tx_data := d \<rparr>"
    and "\<not> verifyTransactionSignature e tx'"
    and "tx_id tx \<noteq> []" and "tx_signature tx \<noteq> []" and "tx_from tx \<noteq> []"
    and "truthy d" and "tx_type tx \<in> set validTypes"
    and "length pl < MAX_POOL_SIZE"
  shows "validateTransaction tx' = Valid \<and> submitTransaction tx' pl = Inr (pl @ [tx'])"
proof -
  from assms have "validateTransaction tx' = Valid"
    by (simp add: validateTransaction_def)
  with assms(9) show ?thesis
    by (simp add: submitTransaction_def)
qed

theorem admission_ignores_signature_witness:
  "tx_signature sampleTx = signTransaction plainEnv sampleTx
   \<and> \<not> verifyTransactionSignature plainEnv (sampleTx\<lparr> tx_data := JStr ''B'' \<rparr>)
   \<and> validateTransaction (sampleTx\<lparr> tx_data := JStr ''B'' \<rparr>) = Valid
   \<and> submitTransaction (sampleTx\<lparr> tx_data := JStr ''B'' \<rparr>) [] = Inr [sampleTx\<lparr> tx_data := JStr ''B'' \<rparr>]"
proof -
  have signed: "tx_signature sampleTx = signTransaction plainEnv sampleTx"
    by (simp add: sampleTx_def createTransaction_def signTransaction_def Let_def)
  have tampered: "\<not> verifyTransactionSignature plainEnv (sampleTx\<lparr> tx_data := JStr ''B'' \<rparr>)"
    by (simp add: verifyTransactionSignature_def sampleTx_def createTransaction_def
        signTransaction_def plainEnv_def optStr_def quoteJSON_def escapeChar_def Let_def)
  have fields: "tx_id sampleTx \<noteq> []" "tx_signature sampleTx \<noteq> []" "tx_from sampleTx \<noteq> []"
      "truthy (JStr ''B'')" "tx_type sampleTx \<in> set validTypes" "length ([] :: Transaction list) < MAX_POOL_SIZE"
    by (simp_all add: sampleTx_def createTransaction_def signTransaction_def plainEnv_def
        validTypes_def MAX_POOL_SIZE_def Let_def)
  from admission_ignores_signature [OF signed refl tampered fields] signed tampered
  show ?thesis by simp
qed

lemma fold_marks_length:
  "\<forall>op\<in>set ops. isMark op \<Longrightarrow> length (fold applyPoolOp ops pl) = length pl"
proof (induction ops arbitrary: pl)
  case Nil
  then show ?case by simp
next
  case (Cons op ops)
  then have "isMark op" by simp
  then have "length (applyPoolOp op pl) = length pl"
    by (cases op) (simp_all add: markTransactionConfirmed_def markTransactionFailed_def length_mutateFirst)
  with Cons show ?case by simp
qed

lemma mark_step_keeps:
  assumes "isMark op" and "i < length pl"
  shows "tx_id (applyPoolOp op pl ! i) = tx_id (pl ! i)
         \<and> (tx_status (pl ! i) \<noteq> Pending \<longrightarrow> tx_status (applyPoolOp op pl ! i) \<noteq> Pending)"
  using assms
  by (cases op)
     (simp_all add: markTransactionConfirmed_def markTransactionFailed_def nth_mutateFirst)

lemma fold_marks_keep:
  "\<forall>op\<in>set ops. isMark op \<Longrightarrow> i < length pl \<Longrightarrow>
   tx_id (fold applyPoolOp ops pl ! i) = tx_id (pl ! i)
   \<and> (tx_status (pl ! i) \<noteq> Pending \<longrightarrow> tx_status (fold applyPoolOp ops pl ! i) \<noteq> Pending)"
proof (induction ops arbitrary: pl)
  case Nil
  then show ?case by simp
next
  case (Cons op ops)
  then have m: "isMark op" and rest: "\<forall>op\<in>set ops. isMark op" by simp_all
  have len: "i < length (applyPoolOp op pl)"
    using fold_marks_length [of "[op]" pl] m Cons.prems(2) by simp
  from Cons.IH [OF rest len] mark_step_keeps [OF m Cons.prems(2)]
  show ?case by simp
qed

text \<open>
  Claim C4, as amended. The two marking operations are unconditional: in a pool,
  \<open>markTransactionConfirmed\<close> leaves the first entry carrying the given identifier
  confirmed and \<open>markTransactionFailed\<close> leaves it failed, whatever its status was, and
  every other entry keeps its status. What is one-way is leaving \<open>pending\<close>: under any
  sequence of the two operations an entry that is confirmed or failed never becomes
  pending again.
\<close>

theorem mark_status_transitions:
  assumes "i < length pl"
  shows "tx_status (markTransactionConfirmed tid bi g pl ! i) =
           (if tx_id (pl ! i) = tid \<and> (\<forall>j<i. tx_id (pl ! j) \<noteq> tid) then Confirmed
            else tx_status (pl ! i))
       \<and> tx_status (markTransactionFailed tid pl ! i) =
           (if tx_id (pl ! i) = tid \<and> (\<forall>j<i. tx_id (pl ! j) \<noteq> tid) then Failed
            else tx_status (pl ! i))
       \<and> ((\<forall>op\<in>set ops. isMark op) \<and> tx_status (pl ! i) \<noteq> Pending \<longrightarrow>
            tx_status (fold applyPoolOp ops pl ! i) \<noteq> Pending)"
proof -
  have c: "tx_status (markTransactionConfirmed tid bi g pl ! i) =
           (if tx_id (pl ! i) = tid \<and> (\<forall>j<i. tx_id (pl ! j) \<noteq> tid) then Confirmed
            else tx_status (pl ! i))"
    using assms by (auto simp: markTransactionConfirmed_def nth_mutateFirst)
  have f: "tx_status (markTransactionFailed tid pl ! i) =
           (if tx_id (pl ! i) = tid \<and> (\<forall>j<i. tx_id (pl ! j) \<noteq> tid) then Failed
            else tx_status (pl ! i))"
    using assms by (auto simp: markTransactionFailed_def nth_mutateFirst)
  have s: "(\<forall>op\<in>set ops. isMark op) \<and> tx_status (pl ! i) \<noteq> Pending \<longrightarrow>
            tx_status (fold applyPoolOp ops pl ! i) \<noteq> Pending"
    using assms fold_marks_keep [of ops i pl] by blast
  from c f s show ?thesis by (intro conjI)
qed

theorem mark_status_transitions_witness:
  "tx_status (markTransactionConfirmed ''t1'' 1 0 [sampleTx] ! 0) = Confirmed
   \<and> tx_status (markTransactionFailed ''t1'' [sampleTx] ! 0) = Failed
   \<and> tx_status (fold applyPoolOp [MarkConfirmed ''t1'' 2 5, MarkFailed ''t1'']
                   (markTransactionFailed ''t1'' [sampleTx]) ! 0) \<noteq> Pending"
  using mark_status_transitions [of 0 "[sampleTx]" "''t1''" 1 0 "[]"]
    mark_status_transitions [of 0 "markTransactionFailed ''t1'' [sampleTx]" "''t1''" 1 0
                                "[MarkConfirmed ''t1'' 2 5, MarkFailed ''t1'']"]
  by (simp add: sampleTx_def createTransaction_def markTransactionFailed_def Let_def)

text \<open>
  The claim as stated fails: a confirmed transaction is turned into a failed one by
  \<open>markTransactionFailed\<close>, and back into a confirmed one by \<open>markTransactionConfirmed\<close>.
\<close>

theorem confirmed_then_failed_counterexample:
  "map tx_status (markTransactionConfirmed ''t1'' 1 0 [sampleTx]) = [Confirmed]
   \<and> map tx_status (markTransactionFailed ''t1'' (markTransactionConfirmed ''t1'' 1 0 [sampleTx]))
       = [Failed]
   \<and> map tx_status (markTransactionConfirmed ''t1'' 2 0 (markTransactionFailed ''t1'' [sampleTx]))
       = [Confirmed]"
  by (simp add: sampleTx_def createTransaction_def Let_def
      markTransactionFailed_def markTransactionConfirmed_def)

lemma fold_statsStep:
  "snd (fold statsStep pl (m, gas, n)) =
     (gas + sum_list (map (\<lambda>tx. gasOrZero (tx_gasUsed tx))
                 (filter (\<lambda>tx. tx_status tx = Confirmed \<and> gasTruthy (tx_gasUsed tx)) pl)),
      n + length (filter (\<lambda>tx. tx_status tx = Confirmed \<and> gasTruthy (tx_gasUsed tx)) pl))"
  by (induction pl arbitrary: m gas n) (simp_all add: statsStep_def Let_def)

text \<open>
  Claim C9, as amended. \<open>averageGasUsed\<close> is the mean of \<open>gasUsed\<close> over the confirmed
  transactions whose \<open>gasUsed\<close> is truthy (present and not zero): their gas summed, divided
  by their number, and \<open>0\<close> when there is none. Confirmed transactions with zero gas used
  count neither in the sum nor in the denominator.
\<close>

theorem average_gas_over_nonzero_confirmed:
  "averageGasUsed (getTransactionStats pl) =
     (let counted = filter (\<lambda>tx. tx_status tx = Confirmed \<and> gasTruthy (tx_gasUsed tx)) pl
      in if counted = [] then 0
         else real_of_int (sum_list (map (\<lambda>tx. gasOrZero (tx_gasUsed tx)) counted))
              / real (length counted))"
proof -
  obtain m gas n where f: "fold statsStep pl (Map.empty, 0, 0) = (m, gas, n)"
    by (cases "fold statsStep pl (Map.empty, 0, 0)") auto
  from fold_statsStep [of pl Map.empty 0 0] f
  have "gas = sum_list (map (\<lambda>tx. gasOrZero (tx_gasUsed tx))
                 (filter (\<lambda>tx. tx_status tx = Confirmed \<and> gasTruthy (tx_gasUsed tx)) pl))"
    and "n = length (filter (\<lambda>tx. tx_status tx = Confirmed \<and> gasTruthy (tx_gasUsed tx)) pl)"
    by simp_all
  with f show ?thesis
    by (simp add: getTransactionStats_def Let_def)
qed

text \<open>
  The claim as stated fails on a pool of two transactions confirmed with 0 and with 100 gas:
  the reported mean is 100, the mean over all confirmed transactions is 50.
\<close>

theorem zero_gas_confirmed_counterexample:
  "map tx_status gasPool = [Confirmed, Confirmed]
   \<and> map tx_gasUsed gasPool = [Some 0, Some 100]
   \<and> averageGasUsed (getTransactionStats gasPool) = 100
   \<and> spec_averageGasUsed gasPool = 50"
proof -
  have p: "gasPool = [sampleTx\<lparr> tx_status := Confirmed, tx_blockIndex := Some 1, tx_gasUsed := Some 0 \<rparr>,
                      sampleTx2\<lparr> tx_status := Confirmed, tx_blockIndex := Some 1, tx_gasUsed := Some 100 \<rparr>]"
    by (simp add: gasPool_def markTransactionConfirmed_def sampleTx_def sampleTx2_def
        createTransaction_def Let_def)
  show ?thesis
    unfolding p
    by (simp add: getTransactionStats_def statsStep_def spec_averageGasUsed_def
        gasTruthy_def gasOrZero_def Let_def)
qed

section \<open>Properties of the election rules\<close>

text \<open>
  The function declared by the rule text, taken alone, rejects an election exactly when the
  candidate list is missing or has fewer than 2 entries, or the duration in days is a number
  below 1 or above 365.
\<close>

lemma validateElectionRules_invalid_iff:
  "validateElectionRules el \<noteq> Valid \<longleftrightarrow>
     (case candidates el of None \<Rightarrow> True | Some cs \<Rightarrow> length cs < 2)
     \<or> (\<exists>d. durationDays el = Some d \<and> (d < 1 \<or> 365 < d))"
  by (auto simp: validateElectionRules_def split: option.splits)

lemma electionRulesCode_cut: "returnEndsAtLineBreak electionRulesCode"
  by (simp add: electionRulesCode_def templateText_def)

lemma defaultContracts_election_rule:
  "find (\<lambda>c. sc_type c = ''election_rules'' \<and> sc_isActive c) (deployDefaultContracts uuid t0 [])
     = Some (fst (deployContract (uuid 0) t0
                   \<lparr> sc_name = ''Election Validation Rules'', sc_type = ''election_rules'',
                     sc_code = electionRulesCode, sc_deployedBy = ''system'',
                     sc_parameters = JObj [(''minCandidates'', JNum 2),
                                           (''maxDurationDays'', JNum 365)] \<rparr> []))
   \<and> getContract (uuid 0) (deployDefaultContracts uuid t0 [])
     = Some (fst (deployContract (uuid 0) t0
                   \<lparr> sc_name = ''Election Validation Rules'', sc_type = ''election_rules'',
                     sc_code = electionRulesCode, sc_deployedBy = ''system'',
                     sc_parameters = JObj [(''minCandidates'', JNum 2),
                                           (''maxDurationDays'', JNum 365)] \<rparr> []))"
  by (simp add: deployDefaultContracts_def deployContract_def getContract_def Let_def)

text \<open>
  Claim C5. The claim has the built-in election rules accept every election of at least 2
  candidates whose duration lies in the interval from 0 (excluded) to 365 days, exactly 1
  day included. After the default contracts have been deployed (and likewise on an empty
  contract table), \<open>validateElection\<close> answers \<open>Validation failed\<close> for every election,
  whatever the JavaScript engine and whatever the candidates and dates, and leaves the
  contract table as it was: the code text of the rule
  opens with a line break, so the \<open>return\<close> that \<open>executeContract\<close> puts in front of it
  returns nothing and there is no function to call. The one-day election with two
  candidates is rejected in this way, although the function that the text declares would
  accept it.
\<close>

theorem election_rules_never_run:
  "validateElection engine now el cands (deployDefaultContracts uuid t0 [])
     = (Invalid ''Validation failed'', deployDefaultContracts uuid t0 [])
   \<and> validateElection engine' now oneDayElection [''A'', ''B''] (deployDefaultContracts uuid t0 [])
     = (Invalid ''Validation failed'', deployDefaultContracts uuid t0 [])
   \<and> validateElection engine now el cands [] = (Invalid ''Validation failed'', [])
   \<and> validateElectionRules (oneDayElection\<lparr> candidates := Some [''A'', ''B''] \<rparr>) = Valid"
proof -
  have none: "validateElection engine now el cands [] = (Invalid ''Validation failed'', [])"
    by (simp add: validateElection_def executeContractByType_def)
  have run: "validateElection eng now e cs (deployDefaultContracts uuid t0 [])
     = (Invalid ''Validation failed'', deployDefaultContracts uuid t0 [])"
    for eng :: "string \<Rightarrow> ('c Election \<Rightarrow> string + validation) evaluated"
      and e :: "'c Election" and cs
    using defaultContracts_election_rule [of uuid t0] electionRulesCode_cut
    by (simp add: validateElection_def executeContractByType_def executeContract_def
        newFunctionReturn_def deployContract_def Let_def)
  have body: "validateElectionRules (oneDayElection\<lparr> candidates := Some [''A'', ''B''] \<rparr>) = Valid"
    by (simp add: validateElectionRules_def durationDays_def oneDayElection_def)
  from run [of engine el cands] run [of engine' oneDayElection "[''A'', ''B'']"] none body
  show ?thesis by (intro conjI)
qed

section \<open>Reading the stored chain\<close>

lemma getBlockchain_updates [simp]:
  "getBlockchain (st\<lparr> chain := Some c \<rparr>) = c"
  "getBlockchain (st\<lparr> nodes := ns \<rparr>) = getBlockchain st"
  "getBlockchain (st\<lparr> consensus := cs \<rparr>) = getBlockchain st"
  "getBlockchain (st\<lparr> pool := pl \<rparr>) = getBlockchain st"
  by (simp_all add: getBlockchain_def)

section \<open>The sample stores\<close>

lemma sampleStore_chain: "getBlockchain (sampleStore n) = [createGenesisBlock plainEnv 0]"
  by (simp add: sampleStore_def initializeBlockchain_def initializeConsensus_def
      initializeNetwork_def emptyStore_def getBlockchain_def Let_def)

lemma sampleStore_pool: "pool (sampleStore n) = replicate n sampleTx"
  by (simp add: sampleStore_def)

lemma sampleStore_network:
  "ns_networkHealth (getNetworkStatus (sampleStore n)) = Healthy
   \<and> ns_activeNodes (getNetworkStatus (sampleStore n)) = 6"
  by (simp add: sampleStore_def initializeBlockchain_def initializeConsensus_def
      initializeNetwork_def emptyStore_def createNode_def getNetworkStatus_def Let_def)

lemma sampleTx_pending: "tx_status sampleTx = Pending"
  by (simp add: sampleTx_def createTransaction_def Let_def)

lemma sampleStore_validators:
  "map n_id (getActiveValidators (sampleStore n)) = [''n0'', ''n1'', ''n2'']"
  by (simp add: sampleStore_def initializeBlockchain_def initializeConsensus_def
      initializeNetwork_def emptyStore_def createNode_def getActiveValidators_def
      sampleUuid_def digitChar_def Let_def)

lemma sampleStore_consensus:
  "c_mechanism (getConsensusState (sampleStore n)) = PoA
   \<and> c_currentValidator (getConsensusState (sampleStore n)) = Some ''n0''"
  by (simp add: sampleStore_def initializeBlockchain_def initializeConsensus_def
      initializeNetwork_def emptyStore_def createNode_def getConsensusState_def
      sampleUuid_def digitChar_def Let_def)

lemma sampleStore_active:
  "getActiveValidators (sampleStore n) =
     [createNode ''n0'' 0 Validator ''INEC-Primary-Validator'',
      createNode ''n1'' 0 Validator ''INEC-Secondary-Validator'',
      createNode ''n2'' 0 Validator ''INEC-Tertiary-Validator'']"
  by (simp add: sampleStore_def initializeBlockchain_def initializeConsensus_def
      initializeNetwork_def emptyStore_def createNode_def getActiveValidators_def
      sampleUuid_def digitChar_def Let_def)

lemma strayStore_facts:
  "getActiveValidators strayStore = getActiveValidators (sampleStore 0)
   \<and> c_currentValidator (getConsensusState strayStore) = Some ''retired''"
  by (simp add: strayStore_def getActiveValidators_def getConsensusState_def)

section \<open>Properties of the ledger\<close>

lemma mineBlockPoW_result:
  "mineBlockPoW e b d ns = Some (b', h) \<Longrightarrow>
   h = calculateHash e b' \<and> (\<exists>n. b' = b\<lparr> b_nonce := n \<rparr>) \<and> take d h = replicate d (CHR ''0'')"
proof (induction ns arbitrary: b)
  case Nil
  then show ?case by simp
next
  case (Cons n ns)
  show ?case
  proof (cases "take d (calculateHash e (b\<lparr> b_nonce := n \<rparr>)) = replicate d (CHR ''0'')")
    case True
    with Cons.prems show ?thesis by (auto simp: Let_def)
  next
    case False
    with Cons.prems have "mineBlockPoW e (b\<lparr> b_nonce := n \<rparr>) d ns = Some (b', h)"
      by (simp add: Let_def)
    from Cons.IH [OF this] show ?thesis by auto
  qed
qed

lemma validateBlock_ok_iff:
  "validateBlock e nb pb = Inr () \<longleftrightarrow>
     b_index nb = b_index pb + 1
     \<and> b_previousHash nb = b_hash pb
     \<and> b_hash nb = calculateHash e nb
     \<and> (\<forall>txs. b_transactions nb = Some txs \<longrightarrow> b_merkleRoot nb = calculateMerkleRoot e txs)"
  by (auto simp: validateBlock_def split: option.splits)

lemma candidate_valid:
  assumes "cand = (newBlockOf e now pb cons txs)\<lparr> b_nonce := n, b_hash := h, b_signature := s \<rparr>"
    and "h = calculateHash e ((newBlockOf e now pb cons txs)\<lparr> b_nonce := n \<rparr>)"
  shows "validateBlock e cand pb = Inr ()"
  using assms by (simp add: validateBlock_ok_iff newBlockOf_def calculateHash_def Let_def)

lemma addBlock_shape:
  assumes "getBlockchain st \<noteq> []" and "addBlock e now seen nonces txs st = Some r"
  shows "\<exists>cand. r = commitBlock e seen cand (last (getBlockchain st)) txs st
                 \<and> validateBlock e cand (last (getBlockchain st)) = Inr ()
                 \<and> b_timestamp cand = now"
proof (cases "c_mechanism (getConsensusState st) = PoW")
  case True
  let ?nb = "newBlockOf e now (last (getBlockchain st)) (getConsensusState st) txs"
  from assms True obtain b' h where
    m: "mineBlockPoW e ?nb (c_difficulty (getConsensusState st)) nonces = Some (b', h)"
    and r: "r = commitBlock e seen (b'\<lparr> b_hash := h, b_signature := signBlock e (b'\<lparr> b_hash := h \<rparr>) \<rparr>)
                  (last (getBlockchain st)) txs st"
    by (auto simp: addBlock_def Let_def split: option.splits)
  from mineBlockPoW_result [OF m] obtain n where
    h: "h = calculateHash e b'" and b': "b' = ?nb\<lparr> b_nonce := n \<rparr>" by auto
  have "validateBlock e (b'\<lparr> b_hash := h, b_signature := signBlock e (b'\<lparr> b_hash := h \<rparr>) \<rparr>)
          (last (getBlockchain st)) = Inr ()"
    by (rule candidate_valid [where n = n and now = now and cons = "getConsensusState st" and txs = txs])
       (simp_all add: b' h)
  moreover have "b_timestamp (b'\<lparr> b_hash := h, b_signature := signBlock e (b'\<lparr> b_hash := h \<rparr>) \<rparr>) = now"
    by (simp add: b' newBlockOf_def Let_def)
  ultimately show ?thesis using r by blast
next
  case False
  let ?nb = "newBlockOf e now (last (getBlockchain st)) (getConsensusState st) txs"
  from assms False have
    r: "r = commitBlock e seen (?nb\<lparr> b_hash := calculateHash e ?nb,
                                     b_signature := signBlock e (?nb\<lparr> b_hash := calculateHash e ?nb \<rparr>) \<rparr>)
                  (last (getBlockchain st)) txs st"
    by (auto simp: addBlock_def Let_def)
  have "validateBlock e (?nb\<lparr> b_hash := calculateHash e ?nb,
                              b_signature := signBlock e (?nb\<lparr> b_hash := calculateHash e ?nb \<rparr>) \<rparr>)
          (last (getBlockchain st)) = Inr ()"
    by (rule candidate_valid [where n = "b_nonce ?nb" and now = now
                                and cons = "getConsensusState st" and txs = txs])
       simp_all
  moreover have "b_timestamp (?nb\<lparr> b_hash := calculateHash e ?nb,
                              b_signature := signBlock e (?nb\<lparr> b_hash := calculateHash e ?nb \<rparr>) \<rparr>) = now"
    by (simp add: newBlockOf_def Let_def)
  ultimately show ?thesis using r by blast
qed

lemma rotateValidator_keeps:
  "getBlockchain (rotateValidator st) = getBlockchain st" "nodes (rotateValidator st) = nodes st"
  "pool (rotateValidator st) = pool st"
  by (simp_all add: rotateValidator_def Let_def)

lemma updateValidatorStats_keeps:
  "getBlockchain (updateValidatorStats seen v st) = getBlockchain st"
  "consensus (updateValidatorStats seen v st) = consensus st"
  "pool (updateValidatorStats seen v st) = pool st"
  by (simp_all add: updateValidatorStats_def)

lemma commitBlock_ok:
  assumes "validateBlock e nb pb = Inr ()" and "commitBlock e seen nb pb txs st = (r, st')"
  shows "r = Inr nb" and "getBlockchain st' = getBlockchain st @ [nb]"
    and "nodes st' = nodes (updateValidatorStats seen (if b_validator nb = [] then ''system'' else b_validator nb) st)"
    and "consensus st' = consensus (rotateValidator
           (updateValidatorStats seen (if b_validator nb = [] then ''system'' else b_validator nb) st))"
proof -
  let ?st1 = "st\<lparr> chain := Some (getBlockchain st @ [nb]) \<rparr>"
  let ?v = "if b_validator nb = [] then ''system'' else b_validator nb"
  let ?st3 = "rotateValidator (updateValidatorStats seen ?v ?st1)"
  from assms have r: "r = Inr nb"
    and st': "st' = ?st3\<lparr> pool := fold (\<lambda>transaction p.
                        markTransactionConfirmed (tx_id transaction) (b_index nb)
                          (gasOrZero (tx_gasUsed transaction)) p) txs (pool ?st3) \<rparr>"
    by (simp_all add: commitBlock_def Let_def)
  have upd: "updateValidatorStats seen ?v ?st1 = (updateValidatorStats seen ?v st)\<lparr> chain := Some (getBlockchain st @ [nb]) \<rparr>"
    by (simp add: updateValidatorStats_def)
  have rot: "consensus (rotateValidator (s\<lparr> chain := c \<rparr>)) = consensus (rotateValidator s)" for s :: Store and c
    by (simp add: rotateValidator_def getConsensusState_def getActiveValidators_def Let_def)
  show "r = Inr nb" by (rule r)
  show "getBlockchain st' = getBlockchain st @ [nb]"
    by (simp add: st' rotateValidator_keeps updateValidatorStats_keeps)
  show "nodes st' = nodes (updateValidatorStats seen ?v st)"
    by (simp add: st' rotateValidator_keeps upd)
  show "consensus st' = consensus (rotateValidator (updateValidatorStats seen ?v st))"
    by (simp add: st' upd rot)
qed

lemma commitBlock_failed:
  "validateBlock e nb pb = Inl err \<Longrightarrow> commitBlock e seen nb pb txs st = (Inl err, st)"
  by (simp add: commitBlock_def)

lemma addBlock_PoA_returns:
  "getBlockchain st \<noteq> [] \<Longrightarrow> c_mechanism (getConsensusState st) = PoA \<Longrightarrow>
   \<exists>b st'. addBlock e now seen nonces txs st = Some (Inr b, st')"
proof -
  assume ne: "getBlockchain st \<noteq> []" and poa: "c_mechanism (getConsensusState st) = PoA"
  then obtain r where r: "addBlock e now seen nonces txs st = Some r"
    by (auto simp: addBlock_def Let_def)
  from addBlock_shape [OF ne r] obtain cand where
    c: "r = commitBlock e seen cand (last (getBlockchain st)) txs st"
    and v: "validateBlock e cand (last (getBlockchain st)) = Inr ()" by blast
  obtain x st' where x: "commitBlock e seen cand (last (getBlockchain st)) txs st = (x, st')"
    by (cases "commitBlock e seen cand (last (getBlockchain st)) txs st")
  from commitBlock_ok(1) [OF v x] x c r show ?thesis by auto
qed

lemma validateBlockchain_append:
  "validateBlockchain e (ch @ [b]) \<longleftrightarrow>
     validateBlockchain e ch \<and> (ch = [] \<or> validateBlock e b (last ch) = Inr ())"
proof (induction e ch rule: validateBlockchain.induct)
  case (1 e previousBlock currentBlock rest)
  then show ?case by (auto split: sum.splits)
next
  case (2 e b')
  then show ?case by (auto split: sum.splits)
next
  case (3 e)
  then show ?case by simp
qed

lemma validateBlockchain_pairs:
  "validateBlockchain e ch \<longleftrightarrow>
     (\<forall>i. 0 < i \<and> i < length ch \<longrightarrow> validateBlock e (ch ! i) (ch ! (i - 1)) = Inr ())"
proof (induction e ch rule: validateBlockchain.induct)
  case (1 e previousBlock currentBlock rest)
  have "(\<forall>i. 0 < i \<and> i < length (previousBlock # currentBlock # rest) \<longrightarrow>
            validateBlock e ((previousBlock # currentBlock # rest) ! i)
              ((previousBlock # currentBlock # rest) ! (i - 1)) = Inr ())
        \<longleftrightarrow> validateBlock e currentBlock previousBlock = Inr ()
            \<and> (\<forall>i. 0 < i \<and> i < length (currentBlock # rest) \<longrightarrow>
                  validateBlock e ((currentBlock # rest) ! i) ((currentBlock # rest) ! (i - 1)) = Inr ())"
    (is "?L \<longleftrightarrow> ?A \<and> ?R")
  proof
    assume l: ?L
    from l [rule_format, of 1] have a: ?A by simp
    have ?R
    proof (intro allI impI)
      fix i assume "0 < i \<and> i < length (currentBlock # rest)"
      with l [rule_format, of "Suc i"] show
        "validateBlock e ((currentBlock # rest) ! i) ((currentBlock # rest) ! (i - 1)) = Inr ()"
        by (cases i) simp_all
    qed
    with a show "?A \<and> ?R" ..
  next
    assume ar: "?A \<and> ?R"
    show ?L
    proof (intro allI impI)
      fix i assume i: "0 < i \<and> i < length (previousBlock # currentBlock # rest)"
      then obtain k where k: "i = Suc k" by (cases i) auto
      show "validateBlock e ((previousBlock # currentBlock # rest) ! i)
              ((previousBlock # currentBlock # rest) ! (i - 1)) = Inr ()"
      proof (cases k)
        case 0
        with k ar show ?thesis by simp
      next
        case (Suc j)
        with k i ar [THEN conjunct2, rule_format, of k] show ?thesis by simp
      qed
    qed
  qed
  with 1 show ?case by (auto split: sum.splits)
next
  case (2 e b)
  then show ?case by simp
next
  case (3 e)
  then show ?case by simp
qed

lemma findIndex_none: "\<forall>x\<in>set xs. \<not> p x \<Longrightarrow> findIndex p xs = -1"
  by (induction xs) (simp_all add: Let_def)

lemma findIndex_map: "findIndex p (map f xs) = findIndex (\<lambda>x. p (f x)) xs"
  by (induction xs) (simp_all add: Let_def)

lemma findIndex_distinct:
  "k < length xs \<Longrightarrow> distinct xs \<Longrightarrow> findIndex (\<lambda>v. v = xs ! k) xs = int k"
proof (induction xs arbitrary: k)
  case Nil
  then show ?case by simp
next
  case (Cons x xs)
  show ?case
  proof (cases k)
    case 0
    then show ?thesis by simp
  next
    case (Suc j)
    with Cons.prems have j: "j < length xs" and d: "distinct xs" and nx: "x \<noteq> xs ! j"
      by auto
    from Cons.IH [OF j d] nx Suc show ?thesis by (simp add: Let_def)
  qed
qed

lemma filter_mutateFirst:
  "(\<And>x. P (f x) = P x) \<Longrightarrow> (\<And>x. g (f x) = g x) \<Longrightarrow>
   map g (filter P (mutateFirst p f xs)) = map g (filter P xs)"
  by (induction xs) simp_all

lemma activeIds_updateValidatorStats:
  "map n_id (getActiveValidators (updateValidatorStats seen v st)) = map n_id (getActiveValidators st)"
  unfolding getActiveValidators_def updateValidatorStats_def
  by (simp add: filter_mutateFirst)

lemma rotate_current:
  "c_currentValidator (getConsensusState (rotateValidator st)) =
     (let ids = map n_id (getActiveValidators st);
          cur = c_currentValidator (getConsensusState st)
      in if ids = [] then cur
         else Some (ids ! nat ((findIndex (\<lambda>i. Some i = cur) ids + 1) mod int (length ids))))"
proof (cases "getActiveValidators st = []")
  case True
  then show ?thesis by (simp add: rotateValidator_def Let_def)
next
  case False
  let ?vs = "getActiveValidators st"
  let ?cur = "c_currentValidator (getConsensusState st)"
  let ?k = "nat ((findIndex (\<lambda>v. Some (n_id v) = ?cur) ?vs + 1) mod int (length ?vs))"
  from False have pos: "0 < int (length ?vs)" by simp
  have "(findIndex (\<lambda>v. Some (n_id v) = ?cur) ?vs + 1) mod int (length ?vs) < int (length ?vs)"
    using pos by (rule pos_mod_bound)
  moreover have "0 \<le> (findIndex (\<lambda>v. Some (n_id v) = ?cur) ?vs + 1) mod int (length ?vs)"
    using pos by (rule pos_mod_sign)
  ultimately have k: "?k < length ?vs" by linarith
  have "c_currentValidator (getConsensusState (rotateValidator st)) = Some (n_id (?vs ! ?k))"
    using False by (simp add: rotateValidator_def Let_def getConsensusState_def)
  also have "\<dots> = Some (map n_id ?vs ! ?k)"
    using k by simp
  finally show ?thesis
    using False by (simp add: Let_def findIndex_map)
qed

lemma addBlock_success:
  assumes "addBlock e now seen nonces txs st = Some (Inr b, st')"
  shows "getBlockchain st \<noteq> []" and "getBlockchain st' = getBlockchain st @ [b]"
    and "validateBlock e b (last (getBlockchain st)) = Inr ()"
    and "b_timestamp b = now"
    and "map n_id (getActiveValidators st') = map n_id (getActiveValidators st)"
    and "c_currentValidator (getConsensusState st') =
           (let ids = map n_id (getActiveValidators st);
                cur = c_currentValidator (getConsensusState st)
            in if ids = [] then cur
               else Some (ids ! nat ((findIndex (\<lambda>i. Some i = cur) ids + 1) mod int (length ids))))"
proof -
  show ne: "getBlockchain st \<noteq> []"
    using assms by (auto simp: addBlock_def)
  from addBlock_shape [OF ne assms] obtain cand where
    c: "commitBlock e seen cand (last (getBlockchain st)) txs st = (Inr b, st')"
    and v: "validateBlock e cand (last (getBlockchain st)) = Inr ()"
    and t: "b_timestamp cand = now" by auto
  let ?v = "if b_validator cand = [] then ''system'' else b_validator cand"
  let ?st2 = "updateValidatorStats seen ?v st"
  from commitBlock_ok(1) [OF v c] have b: "b = cand" by simp
  show "b_timestamp b = now"
    using t b by simp
  show "getBlockchain st' = getBlockchain st @ [b]"
    using commitBlock_ok(2) [OF v c] b by simp
  show "validateBlock e b (last (getBlockchain st)) = Inr ()"
    using v b by simp
  have n: "nodes st' = nodes ?st2"
    by (rule commitBlock_ok(3) [OF v c])
  have ids2: "map n_id (getActiveValidators ?st2) = map n_id (getActiveValidators st)"
    by (rule activeIds_updateValidatorStats)
  show "map n_id (getActiveValidators st') = map n_id (getActiveValidators st)"
    using n ids2 by (simp add: getActiveValidators_def)
  have "getConsensusState st' = getConsensusState (rotateValidator ?st2)"
    using commitBlock_ok(4) [OF v c] by (simp add: getConsensusState_def)
  moreover have "getConsensusState ?st2 = getConsensusState st"
    by (simp add: getConsensusState_def updateValidatorStats_keeps)
  ultimately show "c_currentValidator (getConsensusState st') =
           (let ids = map n_id (getActiveValidators st);
                cur = c_currentValidator (getConsensusState st)
            in if ids = [] then cur
               else Some (ids ! nat ((findIndex (\<lambda>i. Some i = cur) ids + 1) mod int (length ids))))"
    using rotate_current [of ?st2] ids2 by simp
qed

lemma rotate_mechanism:
  "c_mechanism (getConsensusState (rotateValidator st)) = c_mechanism (getConsensusState st)"
  by (simp add: rotateValidator_def getConsensusState_def Let_def)

lemma addBlock_mechanism:
  assumes "addBlock e now seen nonces txs st = Some (Inr b, st')"
  shows "c_mechanism (getConsensusState st') = c_mechanism (getConsensusState st)"
proof -
  have ne: "getBlockchain st \<noteq> []" by (rule addBlock_success(1) [OF assms])
  from addBlock_shape [OF ne assms] obtain cand where
    c: "commitBlock e seen cand (last (getBlockchain st)) txs st = (Inr b, st')"
    and v: "validateBlock e cand (last (getBlockchain st)) = Inr ()" by auto
  let ?st2 = "updateValidatorStats seen (if b_validator cand = [] then ''system'' else b_validator cand) st"
  have "getConsensusState st' = getConsensusState (rotateValidator ?st2)"
    using commitBlock_ok(4) [OF v c] by (simp add: getConsensusState_def)
  moreover have "getConsensusState ?st2 = getConsensusState st"
    by (simp add: getConsensusState_def updateValidatorStats_keeps)
  ultimately show ?thesis
    using rotate_mechanism [of ?st2] by simp
qed

lemma addBlocks_PoA_returns:
  "getBlockchain st \<noteq> [] \<Longrightarrow> c_mechanism (getConsensusState st) = PoA \<Longrightarrow>
   \<exists>st'. addBlocks e calls st = Some st'"
proof (induction calls arbitrary: st)
  case Nil
  then show ?case by simp
next
  case (Cons call calls)
  obtain now seen nonces txs where call: "call = (now, seen, nonces, txs)"
    by (cases call) auto
  from addBlock_PoA_returns [OF Cons.prems] obtain b st1 where
    a: "addBlock e now seen nonces txs st = Some (Inr b, st1)" by blast
  have "getBlockchain st1 \<noteq> []"
    using addBlock_success(2) [OF a] by simp
  moreover have "c_mechanism (getConsensusState st1) = PoA"
    using addBlock_mechanism [OF a] Cons.prems(2) by simp
  ultimately obtain st' where "addBlocks e calls st1 = Some st'"
    using Cons.IH by blast
  with a call show ?case by simp
qed

lemma addBlocks_Cons_success:
  assumes "addBlocks e (call # calls) st = Some st'"
  obtains now seen nonces txs b st1 where "call = (now, seen, nonces, txs)"
    and "addBlock e now seen nonces txs st = Some (Inr b, st1)"
    and "addBlocks e calls st1 = Some st'"
proof -
  obtain now seen nonces txs where call: "call = (now, seen, nonces, txs)"
    by (cases call) auto
  with assms obtain b st1 where "addBlock e now seen nonces txs st = Some (Inr b, st1)"
    and "addBlocks e calls st1 = Some st'"
    by (auto split: option.splits sum.splits prod.splits)
  with call that show ?thesis by blast
qed

lemma addBlocks_valid:
  "validateBlockchain e (getBlockchain st) \<Longrightarrow> addBlocks e calls st = Some st' \<Longrightarrow>
   validateBlockchain e (getBlockchain st') \<and> length (getBlockchain st') = length (getBlockchain st) + length calls
   \<and> take (length (getBlockchain st)) (getBlockchain st') = getBlockchain st"
proof (induction calls arbitrary: st)
  case Nil
  then show ?case by simp
next
  case (Cons call calls)
  from Cons.prems(2) obtain now seen nonces txs b st1 where
    a: "addBlock e now seen nonces txs st = Some (Inr b, st1)"
    and rest: "addBlocks e calls st1 = Some st'"
    by (rule addBlocks_Cons_success)
  have ch: "getBlockchain st1 = getBlockchain st @ [b]" by (rule addBlock_success(2) [OF a])
  have "validateBlockchain e (getBlockchain st1)"
    using Cons.prems(1) addBlock_success(3) [OF a] ch by (simp add: validateBlockchain_append)
  from Cons.IH [OF this rest] ch show ?case by (auto simp: take_Suc_conv_app_nth)
qed

lemma addBlocks_timestamps:
  "addBlocks e calls st = Some st' \<Longrightarrow>
   map b_timestamp (getBlockchain st') = map b_timestamp (getBlockchain st) @ map fst calls"
proof (induction calls arbitrary: st)
  case Nil
  then show ?case by simp
next
  case (Cons call calls)
  from Cons.prems obtain now seen nonces txs b st1 where
    call: "call = (now, seen, nonces, txs)"
    and a: "addBlock e now seen nonces txs st = Some (Inr b, st1)"
    and rest: "addBlocks e calls st1 = Some st'"
    by (rule addBlocks_Cons_success)
  from Cons.IH [OF rest] addBlock_success(2) [OF a] addBlock_success(4) [OF a] call
  show ?case by simp
qed

lemma next_index:
  assumes "distinct ids" and "k < length ids"
  shows "ids ! nat ((findIndex (\<lambda>i. Some i = Some (ids ! k)) ids + 1) mod int (length ids))
         = ids ! ((k + 1) mod length ids)"
proof -
  have "findIndex (\<lambda>i. i = ids ! k) ids = int k"
    using assms by (simp add: findIndex_distinct)
  moreover have "nat ((int k + 1) mod int (length ids)) = (k + 1) mod length ids"
    by (simp add: nat_mod_distrib nat_add_distrib)
  ultimately show ?thesis by simp
qed

lemma addBlocks_rotation:
  "distinct (map n_id (getActiveValidators st)) \<Longrightarrow> k < length (getActiveValidators st) \<Longrightarrow>
   c_currentValidator (getConsensusState st) = Some (map n_id (getActiveValidators st) ! k) \<Longrightarrow>
   addBlocks e calls st = Some st' \<Longrightarrow>
   map n_id (getActiveValidators st') = map n_id (getActiveValidators st)
   \<and> c_currentValidator (getConsensusState st') =
       Some (map n_id (getActiveValidators st) ! ((k + length calls) mod length (getActiveValidators st)))"
proof (induction calls arbitrary: st k)
  case Nil
  then show ?case by simp
next
  case (Cons call calls)
  let ?ids = "map n_id (getActiveValidators st)"
  from Cons.prems(4) obtain now seen nonces txs b st1 where
    a: "addBlock e now seen nonces txs st = Some (Inr b, st1)"
    and rest: "addBlocks e calls st1 = Some st'"
    by (rule addBlocks_Cons_success)
  have ids1: "map n_id (getActiveValidators st1) = ?ids"
    by (rule addBlock_success(5) [OF a])
  then have len1: "length (getActiveValidators st1) = length (getActiveValidators st)"
    by (metis length_map)
  from Cons.prems(2) have ne: "?ids \<noteq> []" by auto
  have k': "(k + 1) mod length (getActiveValidators st) < length (getActiveValidators st1)"
  proof -
    from Cons.prems(2) have "0 < length (getActiveValidators st)" by auto
    then have "(k + 1) mod length (getActiveValidators st) < length (getActiveValidators st)"
      by (rule mod_less_divisor)
    with len1 show ?thesis by simp
  qed
  have "c_currentValidator (getConsensusState st1) =
          Some (?ids ! nat ((findIndex (\<lambda>i. Some i = Some (?ids ! k)) ?ids + 1) mod int (length ?ids)))"
    using addBlock_success(6) [OF a] ne Cons.prems(3) by (simp add: Let_def)
  also have "\<dots> = Some (?ids ! ((k + 1) mod length ?ids))"
    using next_index [of ?ids k] Cons.prems(1,2) by simp
  finally have cur1: "c_currentValidator (getConsensusState st1) =
          Some (map n_id (getActiveValidators st1) ! ((k + 1) mod length (getActiveValidators st)))"
    using ids1 by simp
  have d1: "distinct (map n_id (getActiveValidators st1))"
    using Cons.prems(1) ids1 by simp
  from Cons.IH [OF d1 k' cur1 rest] ids1 len1
  have "map n_id (getActiveValidators st') = ?ids"
    and "c_currentValidator (getConsensusState st') =
       Some (?ids ! (((k + 1) mod length (getActiveValidators st) + length calls)
                     mod length (getActiveValidators st)))"
    by simp_all
  moreover have "((k + 1) mod length (getActiveValidators st) + length calls)
                     mod length (getActiveValidators st)
                 = (k + length (call # calls)) mod length (getActiveValidators st)"
  proof -
    have "((k + 1) mod length (getActiveValidators st) + length calls)
            mod length (getActiveValidators st)
          = ((k + 1) + length calls) mod length (getActiveValidators st)"
      by (rule mod_add_left_eq)
    then show ?thesis by (simp add: ac_simps)
  qed
  ultimately show ?case by simp
qed

lemma rotateValidator_fallback:
  assumes "getActiveValidators st \<noteq> []"
    and "\<forall>v\<in>set (getActiveValidators st). Some (n_id v) \<noteq> c_currentValidator (getConsensusState st)"
  shows "c_currentValidator (getConsensusState (rotateValidator st))
         = Some (n_id (getActiveValidators st ! 0))"
proof -
  have "findIndex (\<lambda>i. Some i = c_currentValidator (getConsensusState st))
          (map n_id (getActiveValidators st)) = -1"
    using assms(2) by (intro findIndex_none) auto
  with assms(1) show ?thesis
    by (simp add: rotate_current Let_def)
qed

text \<open>
  Claim C1. Start from a chain that holds only the genesis block and run any sequence of
  \<open>addBlock\<close> calls that all return a block: \<open>validateBlockchain\<close> is true of the resulting
  chain, which has one block per call after the genesis block. Under proof of authority
  every such run does return. \<open>validateBlockchain\<close> is true exactly when every adjacent pair
  passes \<open>validateBlock\<close>, so it is false as soon as one pair fails; and \<open>validateBlock\<close>
  passes exactly when the index is the predecessor's plus one, the previous hash is the
  predecessor's hash, the stored hash equals the recomputed one and, for a block that
  carries a transaction list, the stored Merkle root equals the recomputed one.
\<close>

theorem chain_valid_after_addBlocks:
  "(getBlockchain st = [createGenesisBlock e t0] \<and> addBlocks e calls st = Some st' \<longrightarrow>
      validateBlockchain e (getBlockchain st') \<and> length (getBlockchain st') = 1 + length calls
      \<and> hd (getBlockchain st') = createGenesisBlock e t0)
   \<and> (getBlockchain st \<noteq> [] \<and> c_mechanism (getConsensusState st) = PoA \<longrightarrow>
        (\<exists>st''. addBlocks e calls st = Some st''))
   \<and> (validateBlockchain e ch \<longleftrightarrow>
        (\<forall>i. 0 < i \<and> i < length ch \<longrightarrow> validateBlock e (ch ! i) (ch ! (i - 1)) = Inr ()))
   \<and> (validateBlock e nb pb = Inr () \<longleftrightarrow>
        b_index nb = b_index pb + 1
        \<and> b_previousHash nb = b_hash pb
        \<and> b_hash nb = calculateHash e nb
        \<and> (\<forall>txs. b_transactions nb = Some txs \<longrightarrow> b_merkleRoot nb = calculateMerkleRoot e txs))"
proof -
  have run: "getBlockchain st = [createGenesisBlock e t0] \<and> addBlocks e calls st = Some st' \<longrightarrow>
      validateBlockchain e (getBlockchain st') \<and> length (getBlockchain st') = 1 + length calls
      \<and> hd (getBlockchain st') = createGenesisBlock e t0"
  proof
    assume a: "getBlockchain st = [createGenesisBlock e t0] \<and> addBlocks e calls st = Some st'"
    then have v: "validateBlockchain e (getBlockchain st)" by simp
    from addBlocks_valid [OF v a [THEN conjunct2]] a
    have "validateBlockchain e (getBlockchain st')" and "length (getBlockchain st') = 1 + length calls"
      and "take 1 (getBlockchain st') = [createGenesisBlock e t0]"
      by simp_all
    then show "validateBlockchain e (getBlockchain st') \<and> length (getBlockchain st') = 1 + length calls
      \<and> hd (getBlockchain st') = createGenesisBlock e t0"
      by (cases "getBlockchain st'") simp_all
  qed
  have returns: "getBlockchain st \<noteq> [] \<and> c_mechanism (getConsensusState st) = PoA \<longrightarrow>
        (\<exists>st''. addBlocks e calls st = Some st'')"
    using addBlocks_PoA_returns [of st e calls] by blast
  note pairs = validateBlockchain_pairs [of e ch]
  note one = validateBlock_ok_iff [of e nb pb]
  from run returns pairs one show ?thesis by (intro conjI)
qed

theorem chain_valid_after_addBlocks_witness:
  "\<exists>st'. addBlocks plainEnv [(1000, 1000, [], [sampleTx]), (2000, 2000, [], [])] (sampleStore 1) = Some st'
         \<and> validateBlockchain plainEnv (getBlockchain st') \<and> length (getBlockchain st') = 3"
proof -
  let ?calls = "[(1000, 1000, [], [sampleTx]), (2000, 2000, [], [])]"
  note inst = chain_valid_after_addBlocks [of "sampleStore 1" plainEnv 0 ?calls]
  have start: "getBlockchain (sampleStore 1) = [createGenesisBlock plainEnv 0]"
    by (rule sampleStore_chain)
  have poa: "c_mechanism (getConsensusState (sampleStore 1)) = PoA"
    using sampleStore_consensus by simp
  from inst [THEN conjunct2, THEN conjunct1] start poa
  obtain st' where run: "addBlocks plainEnv ?calls (sampleStore 1) = Some st'"
    by auto
  from chain_valid_after_addBlocks [of "sampleStore 1" plainEnv 0 ?calls st', THEN conjunct1] start run
  have "validateBlockchain plainEnv (getBlockchain st') \<and> length (getBlockchain st') = 3"
    by simp
  with run show ?thesis by blast
qed

text \<open>
  Claim C2. When the candidate block fails \<open>validateBlock\<close>, the rest of \<open>addBlock\<close>
  returns that error and the store is exactly what it was: no block appended, no validator
  statistics updated, no rotation, no transaction marked. Every outcome of \<open>addBlock\<close> on a
  non-empty chain is this step applied to its candidate, and whenever \<open>addBlock\<close> raises,
  the store is unchanged.
\<close>

theorem failed_validation_leaves_store:
  "(validateBlock e newBlock previousBlock = Inl err \<longrightarrow>
      commitBlock e seen newBlock previousBlock txs st = (Inl err, st))
   \<and> (getBlockchain st \<noteq> [] \<and> addBlock e now seen' nonces txs' st = Some r \<longrightarrow>
        (\<exists>cand. r = commitBlock e seen' cand (last (getBlockchain st)) txs' st))
   \<and> (addBlock e now seen' nonces txs' st = Some (Inl err', st') \<longrightarrow> st' = st)"
proof -
  have failed: "validateBlock e newBlock previousBlock = Inl err \<longrightarrow>
      commitBlock e seen newBlock previousBlock txs st = (Inl err, st)"
    by (simp add: commitBlock_failed)
  have shape: "getBlockchain st \<noteq> [] \<and> addBlock e now seen' nonces txs' st = Some r \<longrightarrow>
        (\<exists>cand. r = commitBlock e seen' cand (last (getBlockchain st)) txs' st)"
    using addBlock_shape [of st e now seen' nonces txs' r] by blast
  have same: "addBlock e now seen' nonces txs' st = Some (Inl err', st') \<longrightarrow> st' = st"
  proof
    assume a: "addBlock e now seen' nonces txs' st = Some (Inl err', st')"
    show "st' = st"
    proof (cases "getBlockchain st = []")
      case True
      with a show ?thesis by (simp add: addBlock_def)
    next
      case False
      from addBlock_shape [OF False a] obtain cand where
        c: "commitBlock e seen' cand (last (getBlockchain st)) txs' st = (Inl err', st')"
        and v: "validateBlock e cand (last (getBlockchain st)) = Inr ()" by auto
      from commitBlock_ok(1) [OF v c] show ?thesis by simp
    qed
  qed
  from failed shape same show ?thesis by (intro conjI)
qed

theorem failed_validation_leaves_store_witness:
  "validateBlock plainEnv (createGenesisBlock plainEnv 0) (createGenesisBlock plainEnv 0) = Inl InvalidBlockIndex
   \<and> commitBlock plainEnv 5 (createGenesisBlock plainEnv 0) (createGenesisBlock plainEnv 0) [sampleTx] (sampleStore 1)
       = (Inl InvalidBlockIndex, sampleStore 1)
   \<and> addBlock plainEnv 1 1 [] [] emptyStore = Some (Inl TypeError, emptyStore)"
proof -
  have bad: "validateBlock plainEnv (createGenesisBlock plainEnv 0) (createGenesisBlock plainEnv 0)
             = Inl InvalidBlockIndex"
    by (simp add: validateBlock_def createGenesisBlock_def Let_def)
  have typeError: "addBlock plainEnv 1 1 [] [] emptyStore = Some (Inl TypeError, emptyStore)"
    by (simp add: addBlock_def emptyStore_def getBlockchain_def)
  from failed_validation_leaves_store
         [of plainEnv "createGenesisBlock plainEnv 0" "createGenesisBlock plainEnv 0"
             InvalidBlockIndex 5 "[sampleTx]" "sampleStore 1"]
       failed_validation_leaves_store
         [of plainEnv _ _ _ _ _ emptyStore 1 1 "[]" "[]" _ TypeError emptyStore]
       bad typeError
  show ?thesis by simp
qed

text \<open>
  Claim C3. Let the active validators carry distinct identifiers and let the current
  authority be the first of them. After \<open>N\<close> \<open>addBlock\<close> calls that all return a block, the
  active validators are the same \<open>M\<close> identifiers and the current authority is the one at
  position \<open>N mod M\<close>. And whenever the current authority is not among the active
  validators when \<open>rotateValidator\<close> runs, the next authority is the active validator at
  position 0.
\<close>

theorem validator_rotation:
  "(distinct (map n_id (getActiveValidators st)) \<and> getActiveValidators st \<noteq> []
      \<and> c_currentValidator (getConsensusState st) = Some (n_id (getActiveValidators st ! 0))
      \<and> addBlocks e calls st = Some st' \<longrightarrow>
        map n_id (getActiveValidators st') = map n_id (getActiveValidators st)
        \<and> c_currentValidator (getConsensusState st') =
            Some (n_id (getActiveValidators st ! (length calls mod length (getActiveValidators st)))))
   \<and> (getActiveValidators st \<noteq> []
       \<and> (\<forall>v\<in>set (getActiveValidators st). Some (n_id v) \<noteq> c_currentValidator (getConsensusState st)) \<longrightarrow>
        c_currentValidator (getConsensusState (rotateValidator st))
          = Some (n_id (getActiveValidators st ! 0)))"
proof -
  have round: "distinct (map n_id (getActiveValidators st)) \<and> getActiveValidators st \<noteq> []
      \<and> c_currentValidator (getConsensusState st) = Some (n_id (getActiveValidators st ! 0))
      \<and> addBlocks e calls st = Some st' \<longrightarrow>
        map n_id (getActiveValidators st') = map n_id (getActiveValidators st)
        \<and> c_currentValidator (getConsensusState st') =
            Some (n_id (getActiveValidators st ! (length calls mod length (getActiveValidators st))))"
  proof
    assume a: "distinct (map n_id (getActiveValidators st)) \<and> getActiveValidators st \<noteq> []
      \<and> c_currentValidator (getConsensusState st) = Some (n_id (getActiveValidators st ! 0))
      \<and> addBlocks e calls st = Some st'"
    then have d: "distinct (map n_id (getActiveValidators st))"
      and pos: "0 < length (getActiveValidators st)"
      and cur: "c_currentValidator (getConsensusState st) = Some (map n_id (getActiveValidators st) ! 0)"
      and run: "addBlocks e calls st = Some st'"
      by simp_all
    have "length calls mod length (getActiveValidators st) < length (getActiveValidators st)"
      using pos by (rule mod_less_divisor)
    with addBlocks_rotation [OF d pos cur run]
    show "map n_id (getActiveValidators st') = map n_id (getActiveValidators st)
        \<and> c_currentValidator (getConsensusState st') =
            Some (n_id (getActiveValidators st ! (length calls mod length (getActiveValidators st))))"
      by simp
  qed
  have fallback: "getActiveValidators st \<noteq> []
       \<and> (\<forall>v\<in>set (getActiveValidators st). Some (n_id v) \<noteq> c_currentValidator (getConsensusState st)) \<longrightarrow>
        c_currentValidator (getConsensusState (rotateValidator st))
          = Some (n_id (getActiveValidators st ! 0))"
    using rotateValidator_fallback [of st] by blast
  from round fallback show ?thesis by (intro conjI)
qed

theorem validator_rotation_witness:
  "(\<exists>st'. addBlocks plainEnv [(1000, 1000, [], []), (2000, 2000, [], []), (3000, 3000, [], []),
                               (4000, 4000, [], [])] (sampleStore 0) = Some st'
          \<and> c_currentValidator (getConsensusState st') = Some ''n1'')
   \<and> c_currentValidator (getConsensusState (rotateValidator strayStore)) = Some ''n0''"
proof -
  let ?calls = "[(1000, 1000, [], []), (2000, 2000, [], []), (3000, 3000, [], []),
                 (4000, 4000, [], [])] :: (int \<times> int \<times> int list \<times> Transaction list) list"
  have "getBlockchain (sampleStore 0) \<noteq> []" "c_mechanism (getConsensusState (sampleStore 0)) = PoA"
    using sampleStore_chain [of 0] sampleStore_consensus [of 0] by simp_all
  from addBlocks_PoA_returns [OF this]
  obtain st' where run: "addBlocks plainEnv ?calls (sampleStore 0) = Some st'"
    by blast
  have start: "distinct (map n_id (getActiveValidators (sampleStore 0)))"
      "getActiveValidators (sampleStore 0) \<noteq> []"
      "c_currentValidator (getConsensusState (sampleStore 0))
         = Some (n_id (getActiveValidators (sampleStore 0) ! 0))"
    using sampleStore_consensus [of 0]
    by (simp_all add: sampleStore_active createNode_def)
  from validator_rotation [of "sampleStore 0" plainEnv ?calls st', THEN conjunct1] start run
  have "c_currentValidator (getConsensusState st') = Some ''n1''"
    by (simp add: sampleStore_active createNode_def)
  with run have first: "\<exists>st'. addBlocks plainEnv ?calls (sampleStore 0) = Some st'
          \<and> c_currentValidator (getConsensusState st') = Some ''n1''"
    by blast
  from validator_rotation [of strayStore plainEnv "[]" strayStore, THEN conjunct2]
  have "c_currentValidator (getConsensusState (rotateValidator strayStore)) = Some ''n0''"
    by (simp add: strayStore_facts sampleStore_active createNode_def)
  with first show ?thesis by blast
qed

section \<open>Properties of the monitoring figures\<close>

lemma fold_plus_sum_list: "fold (\<lambda>b a. a + b) xs (s::int) = s + sum_list xs"
  by (induction xs arbitrary: s) simp_all

lemma calculateBlockTimes_ignores_tail:
  "100 \<le> length ch \<Longrightarrow> calculateBlockTimes (ch @ extra) = calculateBlockTimes ch"
  by (auto simp: calculateBlockTimes_def nth_append min_def)

lemma lateChain_times: "calculateBlockTimes lateChain = replicate 99 1000"
proof -
  have "calculateBlockTimes lateChain
        = calculateBlockTimes (map (\<lambda>i. blockAt (int i) (1000 * int i)) [0 ..< 100])"
    unfolding lateChain_def by (rule calculateBlockTimes_ignores_tail) simp
  also have "\<dots> = map (\<lambda>i. 1000) [1 ..< 100]"
    by (auto simp: calculateBlockTimes_def blockAt_def algebra_simps of_nat_diff)
  also have "\<dots> = replicate 99 1000"
    by (simp add: map_replicate_const)
  finally show ?thesis .
qed

lemma lateChain_window:
  "sliceLast 100 lateChain = map (\<lambda>i. blockAt (int i) (1000 * int i)) [1 ..< 100] @ [blockAt 100 149000]"
proof -
  have "[0 ..< 100] = 0 # [1 ..< 100]"
    by (simp add: upt_conv_Cons)
  then show ?thesis
    by (simp add: sliceLast_def lateChain_def)
qed

text \<open>
  The reported mean agrees with the mean over the last 100 blocks as long as the chain has
  at most 100 blocks.
\<close>

lemma averageBlockTime_short_chain:
  "length ch \<le> 100 \<Longrightarrow> averageBlockTime ch = spec_averageBlockTime ch"
  by (simp add: averageBlockTime_def spec_averageBlockTime_def calculateBlockTimes_def
      sliceLast_def fold_plus_sum_list Let_def min_def)

lemma lateChain_means:
  "averageBlockTime lateChain = 1000 \<and> spec_averageBlockTime lateChain = 148000 / 99"
proof -
  have "fold (\<lambda>b a. a + b) (replicate 99 (1000::int)) 0 = 0 + sum_list (replicate 99 1000)"
    by (rule fold_plus_sum_list)
  then have a: "averageBlockTime lateChain = 1000"
    by (simp add: averageBlockTime_def lateChain_times sum_list_replicate Let_def)
  let ?w = "map (\<lambda>i. blockAt (int i) (1000 * int i)) [1 ..< 100] @ [blockAt 100 149000]"
  have len: "length ?w = 100" by simp
  have gaps: "map (\<lambda>i. b_timestamp (?w ! i) - b_timestamp (?w ! (i - 1))) [1 ..< length ?w]
              = replicate 98 1000 @ [50000]"
  proof (rule nth_equalityI)
    show "length (map (\<lambda>i. b_timestamp (?w ! i) - b_timestamp (?w ! (i - 1))) [1 ..< length ?w])
          = length (replicate 98 (1000::int) @ [50000])"
      by simp
  next
    fix i
    assume "i < length (map (\<lambda>i. b_timestamp (?w ! i) - b_timestamp (?w ! (i - 1))) [1 ..< length ?w])"
    then have i: "i < 99" by simp
    show "map (\<lambda>i. b_timestamp (?w ! i) - b_timestamp (?w ! (i - 1))) [1 ..< length ?w] ! i
          = (replicate 98 1000 @ [50000]) ! i"
    proof (cases "i < 98")
      case True
      then show ?thesis by (simp add: nth_append blockAt_def)
    next
      case False
      with i have "i = 98" by simp
      then show ?thesis by (simp add: nth_append blockAt_def)
    qed
  qed
  have b: "spec_averageBlockTime lateChain = 148000 / 99"
    unfolding spec_averageBlockTime_def lateChain_window Let_def gaps
    by (simp add: sum_list_replicate)
  from a b show ?thesis by simp
qed

lemma calculateBlockTimes_cong:
  assumes "map b_timestamp ch = map b_timestamp ch'"
  shows "calculateBlockTimes ch = calculateBlockTimes ch'"
proof -
  from assms have len: "length ch = length ch'"
    by (rule map_eq_imp_length_eq)
  have nth: "b_timestamp (ch ! i) = b_timestamp (ch' ! i)" if "i < length ch" for i
    using that assms len by (metis nth_map)
  show ?thesis
    unfolding calculateBlockTimes_def len
    by (rule map_cong) (auto simp: nth len)
qed

lemma averageBlockTime_cong:
  "map b_timestamp ch = map b_timestamp ch' \<Longrightarrow> averageBlockTime ch = averageBlockTime ch'"
  by (simp add: averageBlockTime_def calculateBlockTimes_cong [of ch ch'])

lemma spec_averageBlockTime_cong:
  assumes "map b_timestamp ch = map b_timestamp ch'"
  shows "spec_averageBlockTime ch = spec_averageBlockTime ch'"
proof -
  from assms have len: "length ch = length ch'"
    by (rule map_eq_imp_length_eq)
  have w: "map b_timestamp (sliceLast 100 ch) = map b_timestamp (sliceLast 100 ch')"
    using assms len by (simp add: sliceLast_def drop_map [symmetric])
  then have wlen: "length (sliceLast 100 ch) = length (sliceLast 100 ch')"
    by (rule map_eq_imp_length_eq)
  have nth: "b_timestamp (sliceLast 100 ch ! i) = b_timestamp (sliceLast 100 ch' ! i)"
    if "i < length (sliceLast 100 ch)" for i
    using that w wlen by (metis nth_map)
  have "map (\<lambda>i. b_timestamp (sliceLast 100 ch ! i) - b_timestamp (sliceLast 100 ch ! (i - 1)))
          [1 ..< length (sliceLast 100 ch)]
        = map (\<lambda>i. b_timestamp (sliceLast 100 ch' ! i) - b_timestamp (sliceLast 100 ch' ! (i - 1)))
          [1 ..< length (sliceLast 100 ch')]"
    unfolding wlen [symmetric]
    by (rule map_cong) (auto simp: nth)
  then show ?thesis
    by (simp only: spec_averageBlockTime_def Let_def)
qed

lemma lateCalls_timestamps:
  "map b_timestamp (getBlockchain (sampleStore 0)) @ map fst lateCalls = map b_timestamp lateChain"
proof -
  have "[0 ..< 100] = 0 # [1 ..< 100]"
    by (simp add: upt_conv_Cons)
  then show ?thesis
    by (simp add: sampleStore_chain createGenesisBlock_def Let_def lateCalls_def lateChain_def
        blockAt_def comp_def)
qed

text \<open>
  Claim C6. The claim reads \<open>averageBlockTime\<close> as the mean gap over the last 100 blocks.
  \<open>calculateBlockTimes\<close> walks the first 100 blocks instead. Initialise the system at time
  0 and add 100 blocks, one per second except for the last, which comes 50 seconds after
  its predecessor: the run returns a chain of 101 blocks on which the reported mean is
  exactly 1000 ms, while the mean gap over the last 100 blocks is 148000 / 99 ms.
\<close>

theorem averageBlockTime_first_hundred:
  "\<exists>st'. addBlocks plainEnv lateCalls (sampleStore 0) = Some st'
         \<and> length (getBlockchain st') = 101
         \<and> averageBlockTime (getBlockchain st') = 1000
         \<and> spec_averageBlockTime (getBlockchain st') = 148000 / 99"
proof -
  have "getBlockchain (sampleStore 0) \<noteq> []" "c_mechanism (getConsensusState (sampleStore 0)) = PoA"
    using sampleStore_chain [of 0] sampleStore_consensus [of 0] by simp_all
  from addBlocks_PoA_returns [OF this]
  obtain st' where run: "addBlocks plainEnv lateCalls (sampleStore 0) = Some st'"
    by blast
  have ts: "map b_timestamp (getBlockchain st') = map b_timestamp lateChain"
    using addBlocks_timestamps [OF run] lateCalls_timestamps by simp
  then have "length (getBlockchain st') = length lateChain"
    by (rule map_eq_imp_length_eq)
  then have len: "length (getBlockchain st') = 101"
    by (simp add: lateChain_def)
  from lateChain_means averageBlockTime_cong [OF ts] spec_averageBlockTime_cong [OF ts]
  have "averageBlockTime (getBlockchain st') = 1000" "spec_averageBlockTime (getBlockchain st') = 148000 / 99"
    by simp_all
  with run len show ?thesis by blast
qed

lemma pendingTransactions_count:
  "pendingTransactions (getTransactionStats pl) = length (filter (\<lambda>tx. tx_status tx = Pending) pl)"
  by (cases "fold statsStep pl (Map.empty, 0, 0)") (simp add: getTransactionStats_def)

lemma sampleStore_metrics:
  "m_chainValidity (getRealtimeMetrics plainEnv 0 (sampleStore n))
   \<and> m_consensusHealth (getRealtimeMetrics plainEnv 0 (sampleStore n)) = Healthy
   \<and> m_pendingTransactions (getRealtimeMetrics plainEnv 0 (sampleStore n)) = n
   \<and> m_averageBlockTime (getRealtimeMetrics plainEnv 0 (sampleStore n)) = 0
   \<and> m_activeNodes (getRealtimeMetrics plainEnv 0 (sampleStore n)) = 6"
  by (simp add: getRealtimeMetrics_def Let_def sampleStore_chain sampleStore_pool
      sampleStore_network pendingTransactions_count sampleTx_pending averageBlockTime_def
      calculateBlockTimes_def blockTimeWarning_def)

text \<open>
  Claim C7. The claim has the overall status at least \<open>warning\<close> above 100 pending
  transactions and \<open>critical\<close> above 500. In a freshly initialised system (valid chain, six
  active nodes, no block-time alarm) to which 200 transactions have been submitted the report
  is \<open>healthy\<close>, and after 600 submissions it is only \<open>warning\<close>.
\<close>

theorem pending_backlog_not_escalated:
  "submitAll (replicate 200 sampleTx) [] = Inr (pool (sampleStore 200))
   \<and> m_pendingTransactions (getRealtimeMetrics plainEnv 0 (sampleStore 200)) = 200
   \<and> h_overall (getBlockchainHealth plainEnv 0 (sampleStore 200)) = OverallHealthy
   \<and> submitAll (replicate 600 sampleTx) [] = Inr (pool (sampleStore 600))
   \<and> m_pendingTransactions (getRealtimeMetrics plainEnv 0 (sampleStore 600)) = 600
   \<and> h_overall (getBlockchainHealth plainEnv 0 (sampleStore 600)) = OverallWarning"
proof -
  have submitted: "submitAll (replicate n sampleTx) [] = Inr (pool (sampleStore n))" if "n \<le> 1000" for n
    using that submitAll_valid [of "replicate n sampleTx" "[]"]
    by (simp add: sampleTx_valid sampleStore_pool MAX_POOL_SIZE_def)
  have "h_overall (getBlockchainHealth plainEnv 0 (sampleStore 200)) = OverallHealthy"
    using sampleStore_metrics [of 200]
    by (simp add: getBlockchainHealth_def healthOfMetrics_def Let_def raise_def
        pendingTransactionsCritical_def blockTimeCritical_def blockTimeWarning_def)
  moreover have "h_overall (getBlockchainHealth plainEnv 0 (sampleStore 600)) = OverallWarning"
    using sampleStore_metrics [of 600]
    by (simp add: getBlockchainHealth_def healthOfMetrics_def Let_def raise_def
        pendingTransactionsCritical_def blockTimeCritical_def blockTimeWarning_def)
  ultimately show ?thesis
    using submitted [of 200] submitted [of 600] sampleStore_metrics [of 200] sampleStore_metrics [of 600]
    by simp
qed

end
